theory Spec2Isabelle
  imports Main "HOL-Library.Multiset" "HOL-Library.Sublist" "HOL-Library.Char_ord"
    "HOL-Library.List_Lexorder"
begin

section \<open>Values of the request body\<close>

text \<open>
  The body of a request is what \<^verbatim>\<open>express.json()\<close> leaves in \<^verbatim>\<open>req.body\<close>: a parsed
  JSON value. Numbers are modelled as integers (the grid positions of the image password
  are integers); an object is the list of its own properties.
\<close>

datatype jsval =
    JNull
  | JBool bool
  | JNum int
  | JStr string
  | JArr "jsval list"
  | JObj "(string \<times> jsval) list"

text \<open>
  A property read \<^verbatim>\<open>v.name\<close>, or a destructuring \<^verbatim>\<open>const { name } = v\<close>, gives
  \<^verbatim>\<open>undefined\<close> (here \<open>None\<close>) where the property is absent.
\<close>

fun get_prop :: "jsval \<Rightarrow> string \<Rightarrow> jsval option" where
  "get_prop (JObj kvs) k = map_of kvs k"
| "get_prop _ k = None"

text \<open>\<^verbatim>\<open>!v\<close> is true exactly on the falsy values.\<close>

fun truthy :: "jsval option \<Rightarrow> bool" where
  "truthy None = False"
| "truthy (Some JNull) = False"
| "truthy (Some (JBool b)) = b"
| "truthy (Some (JNum n)) = (n \<noteq> 0)"
| "truthy (Some (JStr s)) = (s \<noteq> [])"
| "truthy (Some (JArr xs)) = True"
| "truthy (Some (JObj kvs)) = True"

fun isArray :: "jsval option \<Rightarrow> bool" where
  "isArray (Some (JArr xs)) = True"
| "isArray _ = False"

fun elements :: "jsval option \<Rightarrow> jsval list" where
  "elements (Some (JArr xs)) = xs"
| "elements _ = []"

text \<open>
  \<^verbatim>\<open>a[i]\<close> on an array of numbers: \<^verbatim>\<open>undefined\<close> out of range.
\<close>

definition index :: "int list \<Rightarrow> nat \<Rightarrow> int option" where
  "index a i = (if i < length a then Some (a ! i) else None)"

text \<open>
  \<^verbatim>\<open>value === a[i]\<close> for a parsed JSON value on the left: strict equality never
  converts, so only a number equals a number, and nothing parsed equals \<^verbatim>\<open>undefined\<close>.
\<close>

fun strict_eq :: "jsval \<Rightarrow> int option \<Rightarrow> bool" where
  "strict_eq (JNum m) (Some n) = (m = n)"
| "strict_eq _ _ = False"

text \<open>\<^verbatim>\<open>xs.every((value, index) => p value index)\<close>, the index counted from \<open>i\<close>.\<close>

fun every_from :: "nat \<Rightarrow> (jsval \<Rightarrow> nat \<Rightarrow> bool) \<Rightarrow> jsval list \<Rightarrow> bool" where
  "every_from i p [] = True"
| "every_from i p (x # xs) = (if p x i then every_from (Suc i) p xs else False)"

definition every :: "(jsval \<Rightarrow> nat \<Rightarrow> bool) \<Rightarrow> jsval list \<Rightarrow> bool" where
  "every p xs = every_from 0 p xs"

subsection \<open>Conversion to strings\<close>

definition digit :: "nat \<Rightarrow> char" where
  "digit d = ''0123456789'' ! d"

fun nat_to_string :: "nat \<Rightarrow> string" where
  "nat_to_string n =
     (if n < 10 then [digit n] else nat_to_string (n div 10) @ [digit (n mod 10)])"

declare nat_to_string.simps [simp del]

definition num_to_string :: "int \<Rightarrow> string" where
  "num_to_string n =
     (if n < 0 then CHR ''-'' # nat_to_string (nat (- n)) else nat_to_string (nat n))"

fun intercalate :: "string \<Rightarrow> string list \<Rightarrow> string" where
  "intercalate sep [] = []"
| "intercalate sep [s] = s"
| "intercalate sep (s # t # ss) = s @ sep @ intercalate sep (t # ss)"

text \<open>
  \<^verbatim>\<open>String(v)\<close>; inside \<^verbatim>\<open>join\<close> (and so inside the string of a nested array) a
  \<^verbatim>\<open>null\<close> element gives the empty string.
\<close>

fun to_string :: "jsval \<Rightarrow> string" where
  "to_string JNull = ''null''"
| "to_string (JBool b) = (if b then ''true'' else ''false'')"
| "to_string (JNum n) = num_to_string n"
| "to_string (JStr s) = s"
| "to_string (JArr xs) =
     intercalate '','' (map (\<lambda>x. if x = JNull then [] else to_string x) xs)"
| "to_string (JObj kvs) = ''[object Object]''"

definition join :: "jsval list \<Rightarrow> string \<Rightarrow> string" where
  "join xs sep = intercalate sep (map (\<lambda>x. if x = JNull then [] else to_string x) xs)"

section \<open>Server state and configuration\<close>

text \<open>
  \<^verbatim>\<open>const CORRECT_IMAGE_SEQUENCE = [2, 6, 4, 8];\<close>
\<close>

definition CORRECT_IMAGE_SEQUENCE :: "int list" where
  "CORRECT_IMAGE_SEQUENCE = [2, 6, 4, 8]"

text \<open>
  \<^verbatim>\<open>parseInt(process.env.MAX_IMAGE_LOGIN_ATTEMPTS) || 5\<close>: the argument is the result of
  \<^verbatim>\<open>parseInt\<close>, \<open>None\<close> for \<^verbatim>\<open>NaN\<close> (variable unset or not a number). Zero is falsy too.
\<close>

definition MAX_IMAGE_LOGIN_ATTEMPTS :: "int option \<Rightarrow> int" where
  "MAX_IMAGE_LOGIN_ATTEMPTS parsed =
     (case parsed of None \<Rightarrow> 5 | Some n \<Rightarrow> if n = 0 then 5 else n)"

text \<open>An entry of a directory, as \<^verbatim>\<open>fs.statSync\<close> tells them apart.\<close>

datatype entry = File string | Directory

text \<open>
  The process-wide state: the attempt counters \<^verbatim>\<open>imageLoginAttempts\<close> (an object keyed
  by \<^verbatim>\<open>req.ip\<close>), the set \<^verbatim>\<open>authenticatedUsers\<close>, and the disk. Of the disk,
  \<open>uploads\<close> holds the entries of the upload directory \<^verbatim>\<open>UPLOAD_DIR\<close> by name, and
  \<open>disk\<close> every other place a path built from \<^verbatim>\<open>UPLOAD_DIR\<close> can lead to: \<open>(n, names)\<close>
  is the place reached from the upload directory by going up \<open>n\<close> directories and then
  down along \<open>names\<close>.
\<close>

record server =
  imageLoginAttempts :: "string \<rightharpoonup> int"
  authenticatedUsers :: "string set"
  uploads :: "(string \<times> entry) list"
  disk :: "nat \<times> string list \<rightharpoonup> entry"

text \<open>
  A process that has just started over an upload directory \<open>dir\<close>; the state records
  nothing of the disk outside that directory.
\<close>

definition fresh :: "(string \<times> entry) list \<Rightarrow> server" where
  "fresh dir =
     \<lparr>imageLoginAttempts = Map.empty, authenticatedUsers = {}, uploads = dir, disk = Map.empty\<rparr>"

text \<open>
  The body of a response; \<open>ErrorPage\<close> is the page of the framework's own error handler,
  sent where an error reaches it instead of a handler's response.
\<close>

datatype payload =
    Message string
  | Token string string
  | Filename string string
  | Files "string list"
  | Attachment string string
  | Inline string
  | ErrorPage

datatype response = Response (status: nat) (payload: payload)

section \<open>Login\<close>

text \<open>
  The value the handler reads as \<^verbatim>\<open>imageLoginAttempts[clientKey]\<close> once its first line
  has run: a missing (or zero) counter reads as 0.
\<close>

definition attempts :: "server \<Rightarrow> string \<Rightarrow> int" where
  "attempts st clientKey =
     (case imageLoginAttempts st clientKey of None \<Rightarrow> 0 | Some n \<Rightarrow> n)"

text \<open>
  \<^verbatim>\<open>if (!imageLoginAttempts[clientKey]) imageLoginAttempts[clientKey] = 0;\<close>
\<close>

definition init_attempts :: "server \<Rightarrow> string \<Rightarrow> server" where
  "init_attempts st clientKey =
     (if imageLoginAttempts st clientKey = None \<or> imageLoginAttempts st clientKey = Some 0
      then st\<lparr>imageLoginAttempts := (imageLoginAttempts st)(clientKey \<mapsto> 0)\<rparr>
      else st)"

definition isCorrect :: "jsval list \<Rightarrow> bool" where
  "isCorrect imageSequence =
     (length imageSequence = length CORRECT_IMAGE_SEQUENCE \<and>
      every (\<lambda>value i. strict_eq value (index CORRECT_IMAGE_SEQUENCE i)) imageSequence)"

text \<open>
  \<^verbatim>\<open>app.post('/login', ...)\<close>, with the ceiling \<open>mx\<close>, the key \<^verbatim>\<open>req.ip\<close> and the body.
\<close>

definition login :: "int \<Rightarrow> server \<Rightarrow> string \<Rightarrow> jsval \<Rightarrow> server \<times> response" where
  "login mx st0 clientKey body =
     (let st = init_attempts st0 clientKey in
      if attempts st clientKey \<ge> mx
      then (st, Response 429 (Message ''Too many login attempts. Please try again later.''))
      else
        let imageSequence = get_prop body ''imageSequence'' in
        if \<not> truthy imageSequence \<or> \<not> isArray imageSequence
        then (st, Response 400 (Message ''Image sequence is required and must be an array.''))
        else if isCorrect (elements imageSequence)
        then
          let token = ''user_'' @ join (elements imageSequence) ''_'' in
          (st\<lparr>imageLoginAttempts := (imageLoginAttempts st)(clientKey \<mapsto> 0),
              authenticatedUsers := insert token (authenticatedUsers st)\<rparr>,
           Response 200 (Token ''Login successful!'' token))
        else
          (st\<lparr>imageLoginAttempts :=
                (imageLoginAttempts st)(clientKey \<mapsto> attempts st clientKey + 1)\<rparr>,
           Response 401 (Message ''Incorrect image sequence.'')))"

section \<open>The access gateway\<close>

text \<open>
  What the gateway reads of a request: the \<^verbatim>\<open>Authorization\<close> header (a string when
  present) and the \<^verbatim>\<open>token\<close> query parameter, which the query parser delivers as a
  string or, for a repeated or bracketed parameter, as an array or object (\<open>QOther\<close>).
\<close>

datatype qvalue = QStr string | QOther

record request =
  authorization :: "string option"
  query_token :: "qvalue option"

text \<open>
  \<^verbatim>\<open>req.headers['authorization'] || req.query.token\<close>: the header unless it is absent
  or empty.
\<close>

definition bearer :: "request \<Rightarrow> qvalue option" where
  "bearer req =
     (case authorization req of
        None \<Rightarrow> query_token req
      | Some h \<Rightarrow> if h = [] then query_token req else Some (QStr h))"

text \<open>
  \<^verbatim>\<open>authenticateToken\<close>: \<open>Inl\<close> is the response that ends the request, \<open>Inr\<close> the
  \<^verbatim>\<open>req.user.id\<close> handed to the next handler. An array or object is truthy and is not
  a member of a set of strings.
\<close>

definition authenticateToken :: "server \<Rightarrow> request \<Rightarrow> response + string" where
  "authenticateToken st req =
     (case bearer req of
        None \<Rightarrow> Inl (Response 401 (Message ''Authentication token required''))
      | Some QOther \<Rightarrow> Inl (Response 403 (Message ''Invalid or expired token''))
      | Some (QStr token) \<Rightarrow>
          if token = [] then Inl (Response 401 (Message ''Authentication token required''))
          else if token \<in> authenticatedUsers st then Inr token
          else Inl (Response 403 (Message ''Invalid or expired token'')))"

text \<open>The routes of the server, and whether \<^verbatim>\<open>authenticateToken\<close> is in a route's chain.\<close>

datatype route =
    GetTest
  | PostLogin
  | PostUpload
  | GetDownload
  | GetFiles
  | GetNotes
  | PostNotes
  | PutNotes
  | DeleteNotes
  | GetPasswords
  | GetImages
  | PostAdminCheckPassword
  | PostPasswords
  | DeletePasswords

fun protected :: "route \<Rightarrow> bool" where
  "protected GetTest = False"
| "protected PostLogin = False"
| "protected r = True"

text \<open>
  The gate in front of a route's handler: the user attached to the request, if any,
  or the response that ends it.
\<close>

definition gateway :: "route \<Rightarrow> server \<Rightarrow> request \<Rightarrow> response + string option" where
  "gateway r st req =
     (if protected r
      then (case authenticateToken st req of Inl resp \<Rightarrow> Inl resp | Inr user \<Rightarrow> Inr (Some user))
      else Inr None)"

section \<open>The file access surface\<close>

subsection \<open>Names and paths\<close>

text \<open>
  The name the upload middleware gives a file part: what follows the last slash or
  backslash of the part's filename, and nothing for \<^verbatim>\<open>.\<close> and \<^verbatim>\<open>..\<close>. So
  \<^verbatim>\<open>file.originalname\<close> never has a separator in it.
\<close>

definition basename :: "string \<Rightarrow> string" where
  "basename filename =
     (let name = rev (takeWhile (\<lambda>c. c \<noteq> CHR ''/'' \<and> c \<noteq> CHR 0x5C) (rev filename))
      in if name = ''.'' \<or> name = ''..'' then [] else name)"

text \<open>The pieces of a path between its slashes.\<close>

fun segments :: "string \<Rightarrow> string list" where
  "segments [] = [[]]"
| "segments (c # cs) =
     (if c = CHR ''/'' then [] # segments cs
      else (case segments cs of [] \<Rightarrow> [[c]] | s # ss \<Rightarrow> (c # s) # ss))"

text \<open>
  One step of path normalisation from a place \<open>(n, names)\<close>, the names kept innermost
  first: an empty piece and \<^verbatim>\<open>.\<close> stay, \<^verbatim>\<open>..\<close> leaves the innermost directory, and any
  other piece enters it.
\<close>

fun walk :: "nat \<times> string list \<Rightarrow> string \<Rightarrow> nat \<times> string list" where
  "walk (n, names) piece =
     (if piece = [] \<or> piece = ''.'' then (n, names)
      else if piece = ''..''
      then (case names of [] \<Rightarrow> (Suc n, []) | inner # outer \<Rightarrow> (n, outer))
      else (n, piece # names))"

text \<open>
  \<^verbatim>\<open>path.join(UPLOAD_DIR, filename)\<close> as a place seen from the upload directory, and
  whether the joined path keeps a trailing slash.
\<close>

definition path_join :: "string \<Rightarrow> nat \<times> string list" where
  "path_join filename =
     (case foldl walk (0, []) (segments filename) of (n, names) \<Rightarrow> (n, rev names))"

definition trailing_slash :: "string \<Rightarrow> bool" where
  "trailing_slash filename = (filename \<noteq> [] \<and> last filename = CHR ''/'')"

subsection \<open>The disk\<close>

text \<open>
  The upload directory through the calls the server makes on it. \<^verbatim>\<open>fs.readdir\<close>
  returns the names of its entries sorted by their bytes. Writing a file under a name
  replaces the regular file of that name or adds an entry. The directory itself exists
  from startup on.
\<close>

definition readdir :: "(string \<times> entry) list \<Rightarrow> string list" where
  "readdir dir = sort (map fst dir)"

definition statSync :: "(string \<times> entry) list \<Rightarrow> string \<Rightarrow> entry option" where
  "statSync dir name = map_of dir name"

fun isFile :: "entry option \<Rightarrow> bool" where
  "isFile (Some (File content)) = True"
| "isFile _ = False"

fun put :: "string \<Rightarrow> entry \<Rightarrow> (string \<times> entry) list \<Rightarrow> (string \<times> entry) list" where
  "put name e [] = [(name, e)]"
| "put name e ((n, x) # rest) =
     (if n = name then (n, e) # rest else (n, x) # put name e rest)"

text \<open>What is at a place: the upload directory itself, one of its entries, or elsewhere.\<close>

definition lookup :: "server \<Rightarrow> nat \<times> string list \<Rightarrow> entry option" where
  "lookup st place =
     (case place of
        (n, names) \<Rightarrow>
          if n = 0 \<and> names = [] then Some Directory
          else if n = 0 \<and> length names = 1 then statSync (uploads st) (hd names)
          else disk st place)"

text \<open>
  \<^verbatim>\<open>fs.access(path.join(UPLOAD_DIR, filename), fs.constants.F_OK, ...)\<close> passing no
  error: the path leads to an entry, and to a directory where it ends in a slash.
\<close>

definition access :: "server \<Rightarrow> string \<Rightarrow> bool" where
  "access st filename =
     (case lookup st (path_join filename) of
        None \<Rightarrow> False
      | Some (File content) \<Rightarrow> \<not> trailing_slash filename
      | Some Directory \<Rightarrow> True)"

text \<open>
  The last name of a place, and whether it begins with a dot. \<^verbatim>\<open>res.download\<close> and
  \<^verbatim>\<open>res.sendFile\<close> are called with no \<^verbatim>\<open>dotfiles\<close> option, and then refuse a file whose
  name begins with a dot: the callback gets an error.
\<close>

definition final :: "nat \<times> string list \<Rightarrow> string" where
  "final place = (case snd place of [] \<Rightarrow> [] | name # names \<Rightarrow> last (name # names))"

definition dotfile :: "nat \<times> string list \<Rightarrow> bool" where
  "dotfile place = (case final place of [] \<Rightarrow> False | c # cs \<Rightarrow> c = CHR ''.'')"

subsection \<open>The handlers\<close>

text \<open>
  \<^verbatim>\<open>app.post('/upload', authenticateToken, upload.single('file'), ...)\<close>; \<open>file\<close> is the
  filename and the content of the request's file part, if it has one. The middleware
  drops a part whose name comes out empty, and otherwise writes it under
  \<^verbatim>\<open>file.originalname\<close> in the upload directory before the handler runs; where that name is
  a directory the write fails and the error goes to the framework's error handler.
\<close>

definition upload :: "server \<Rightarrow> request \<Rightarrow> (string \<times> string) option \<Rightarrow> server \<times> response" where
  "upload st req file =
     (case authenticateToken st req of
        Inl resp \<Rightarrow> (st, resp)
      | Inr user \<Rightarrow>
          (case file of
             None \<Rightarrow> (st, Response 400 (Message ''No file uploaded.''))
           | Some (filename, content) \<Rightarrow>
               let originalname = basename filename in
               if originalname = []
               then (st, Response 400 (Message ''No file uploaded.''))
               else if statSync (uploads st) originalname = Some Directory
               then (st, Response 500 ErrorPage)
               else (st\<lparr>uploads := put originalname (File content) (uploads st)\<rparr>,
                     Response 200 (Filename ''File uploaded successfully!'' originalname))))"

text \<open>
  \<^verbatim>\<open>app.get('/download/:filename', authenticateToken, ...)\<close>. A path with a zero byte
  makes \<^verbatim>\<open>fs.access\<close> throw, which the framework's error handler answers.
\<close>

definition download :: "server \<Rightarrow> request \<Rightarrow> string \<Rightarrow> response" where
  "download st req filename =
     (case authenticateToken st req of
        Inl resp \<Rightarrow> resp
      | Inr user \<Rightarrow>
          if CHR 0x00 \<in> set filename then Response 500 ErrorPage
          else if access st filename
          then (case lookup st (path_join filename) of
                  Some (File content) \<Rightarrow>
                    if dotfile (path_join filename)
                    then Response 500 (Message ''Error downloading file.'')
                    else Response 200 (Attachment (final (path_join filename)) content)
                | _ \<Rightarrow> Response 500 (Message ''Error downloading file.''))
          else Response 404 (Message ''File not found.''))"

text \<open>
  \<^verbatim>\<open>app.get('/images/:filename', authenticateToken, ...)\<close>. For a path that ends in a
  slash, \<^verbatim>\<open>res.sendFile\<close> sends the file \<^verbatim>\<open>index.html\<close> of the directory, if there is one.
\<close>

definition images :: "server \<Rightarrow> request \<Rightarrow> string \<Rightarrow> response" where
  "images st req filename =
     (case authenticateToken st req of
        Inl resp \<Rightarrow> resp
      | Inr user \<Rightarrow>
          if CHR 0x00 \<in> set filename then Response 500 ErrorPage
          else if access st filename
          then (case lookup st (path_join filename) of
                  Some (File content) \<Rightarrow>
                    if dotfile (path_join filename)
                    then Response 500 (Message ''Error sending image.'')
                    else Response 200 (Inline content)
                | Some Directory \<Rightarrow>
                    if trailing_slash filename
                    then (case lookup st
                                 (fst (path_join filename), snd (path_join filename) @ [''index.html''])
                          of Some (File content) \<Rightarrow> Response 200 (Inline content)
                           | _ \<Rightarrow> Response 500 (Message ''Error sending image.''))
                    else Response 500 (Message ''Error sending image.'')
                | None \<Rightarrow> Response 500 (Message ''Error sending image.''))
          else Response 404 (Message ''Image not found.''))"

text \<open>\<^verbatim>\<open>app.get('/files', authenticateToken, ...)\<close>\<close>

definition files :: "server \<Rightarrow> request \<Rightarrow> response" where
  "files st req =
     (case authenticateToken st req of
        Inl resp \<Rightarrow> resp
      | Inr user \<Rightarrow>
          Response 200
            (Files (filter (\<lambda>name. isFile (statSync (uploads st) name)) (readdir (uploads st)))))"

section \<open>Sequences of requests\<close>

datatype event =
    LoginReq string jsval
  | UploadReq request "(string \<times> string) option"
  | DownloadReq request string
  | ImagesReq request string
  | FilesReq request

fun step :: "int \<Rightarrow> server \<Rightarrow> event \<Rightarrow> server \<times> response" where
  "step mx st (LoginReq clientKey body) = login mx st clientKey body"
| "step mx st (UploadReq req file) = upload st req file"
| "step mx st (DownloadReq req filename) = (st, download st req filename)"
| "step mx st (ImagesReq req filename) = (st, images st req filename)"
| "step mx st (FilesReq req) = (st, files st req)"

text \<open>The requests served one after the other: the final state and the responses in order.\<close>

fun run :: "int \<Rightarrow> server \<Rightarrow> event list \<Rightarrow> server \<times> response list" where
  "run mx st [] = (st, [])"
| "run mx st (ev # evs) =
     (case step mx st ev of (st1, resp) \<Rightarrow>
        (case run mx st1 evs of (st2, resps) \<Rightarrow> (st2, resp # resps)))"

text \<open>The tokens handed out in a list of responses.\<close>

fun issued :: "response list \<Rightarrow> string set" where
  "issued [] = {}"
| "issued (Response code (Token msg token) # resps) = insert token (issued resps)"
| "issued (resp # resps) = issued resps"

section \<open>The client\<close>

text \<open>
  The sign-in state of the page: \<^verbatim>\<open>localStorage\<close>'s \<^verbatim>\<open>authToken\<close>, mirrored in the
  \<^verbatim>\<open>token\<close> state of \<^verbatim>\<open>HomePage\<close>.
\<close>

record client =
  authToken :: "string option"

text \<open>
  \<^verbatim>\<open>handleLogout\<close> removes the stored token and sends no request: of the pair of server
  and client it changes the client only.
\<close>

definition handleLogout :: "server \<times> client \<Rightarrow> server \<times> client" where
  "handleLogout sys = (fst sys, (snd sys)\<lparr>authToken := None\<rparr>)"

text \<open>The request a component sends with \<^verbatim>\<open>headers: { 'Authorization': token }\<close>.\<close>

definition with_header :: "string \<Rightarrow> request" where
  "with_header token = \<lparr>authorization = Some token, query_token = None\<rparr>"

text \<open>The request of \<^verbatim>\<open>src={`${SERVER_URL}/images/${file}?token=${token}`}\<close>.\<close>

definition with_query :: "string \<Rightarrow> request" where
  "with_query token = \<lparr>authorization = None, query_token = Some (QStr token)\<rparr>"

subsection \<open>The two file columns\<close>

definition imageExtensions :: "string list" where
  "imageExtensions = [''.jpg'', ''.jpeg'', ''.png'', ''.gif'', ''.svg'', ''.webp'']"

text \<open>\<^verbatim>\<open>s.lastIndexOf(c)\<close>: the last position of \<open>c\<close>, or -1.\<close>

fun last_index_from :: "nat \<Rightarrow> char \<Rightarrow> string \<Rightarrow> int \<Rightarrow> int" where
  "last_index_from i c [] found = found"
| "last_index_from i c (x # xs) found =
     last_index_from (Suc i) c xs (if x = c then int i else found)"

definition lastIndexOf :: "string \<Rightarrow> char \<Rightarrow> int" where
  "lastIndexOf s c = last_index_from 0 c s (- 1)"

text \<open>\<^verbatim>\<open>s.substring(start)\<close>: a negative start counts as 0.\<close>

definition substring :: "string \<Rightarrow> int \<Rightarrow> string" where
  "substring s start = drop (nat start) s"

text \<open>\<^verbatim>\<open>toLowerCase\<close> on the letters A to Z; every other character is kept.\<close>

definition lower_char :: "char \<Rightarrow> char" where
  "lower_char c =
     (case map_of (zip ''ABCDEFGHIJKLMNOPQRSTUVWXYZ'' ''abcdefghijklmnopqrstuvwxyz'') c of
        None \<Rightarrow> c | Some l \<Rightarrow> l)"

definition toLowerCase :: "string \<Rightarrow> string" where
  "toLowerCase s = map lower_char s"

definition isImage :: "string \<Rightarrow> bool" where
  "isImage file =
     (let extension = toLowerCase (substring file (lastIndexOf file CHR ''.''))
      in extension \<in> set imageExtensions)"

text \<open>The filter of \<^verbatim>\<open>fetchAndFilterFiles\<close> over the names the server listed.\<close>

definition filterFiles :: "string \<Rightarrow> string list \<Rightarrow> string list" where
  "filterFiles fileTypeFilter fs =
     filter (\<lambda>file. if fileTypeFilter = ''image'' then isImage file else \<not> isImage file) fs"

text \<open>
  \<^verbatim>\<open>fetchAndFilterFiles\<close> of a column: the new \<^verbatim>\<open>files\<close> state, or \<open>None\<close> where the
  state is left as it was (no token, or a response that is not ok).
\<close>

definition fetchAndFilterFiles :: "server \<Rightarrow> string option \<Rightarrow> string \<Rightarrow> string list option" where
  "fetchAndFilterFiles st token fileTypeFilter =
     (case token of
        None \<Rightarrow> None
      | Some t \<Rightarrow>
          if t = [] then None
          else (case files st (with_header t) of
                  Response code (Files names) \<Rightarrow>
                    if code = 200 then Some (filterFiles fileTypeFilter names) else None
                | _ \<Rightarrow> None))"

section \<open>The sequence check\<close>

lemma every_from_iff:
  "every_from i p xs \<longleftrightarrow> (\<forall>j<length xs. p (xs ! j) (i + j))"
proof (induction xs arbitrary: i)
  case Nil
  show ?case by simp
next
  case (Cons x xs)
  show ?case
    by (simp add: Cons.IH All_less_Suc2)
qed

lemma strict_eq_iff: "strict_eq v (Some n) \<longleftrightarrow> v = JNum n"
  by (cases v) auto

lemma isCorrect_iff: "isCorrect xs \<longleftrightarrow> xs = map JNum CORRECT_IMAGE_SEQUENCE"
proof
  assume c: "isCorrect xs"
  then have len: "length xs = length CORRECT_IMAGE_SEQUENCE"
    by (simp add: isCorrect_def)
  from c have "\<forall>j<length xs. strict_eq (xs ! j) (index CORRECT_IMAGE_SEQUENCE j)"
    by (simp add: isCorrect_def every_def every_from_iff)
  with len have "\<forall>j<length xs. xs ! j = JNum (CORRECT_IMAGE_SEQUENCE ! j)"
    by (simp add: index_def strict_eq_iff)
  with len show "xs = map JNum CORRECT_IMAGE_SEQUENCE"
    by (simp add: list_eq_iff_nth_eq)
next
  assume "xs = map JNum CORRECT_IMAGE_SEQUENCE"
  then show "isCorrect xs"
    by (simp add: isCorrect_def every_def every_from_iff index_def)
qed

lemma token_correct:
  "''user_'' @ join (map JNum CORRECT_IMAGE_SEQUENCE) ''_'' = ''user_2_6_4_8''"
  by (simp add: join_def CORRECT_IMAGE_SEQUENCE_def num_to_string_def
      nat_to_string.simps digit_def)

section \<open>The four outcomes of a login\<close>

lemma attempts_init [simp]: "attempts (init_attempts st k) k' = attempts st k'"
  by (auto simp: attempts_def init_attempts_def)

lemma users_init [simp]: "authenticatedUsers (init_attempts st k) = authenticatedUsers st"
  by (simp add: init_attempts_def)

lemma uploads_init [simp]: "uploads (init_attempts st k) = uploads st"
  by (simp add: init_attempts_def)

lemma counters_init:
  "imageLoginAttempts (init_attempts st k) = (imageLoginAttempts st)(k \<mapsto> attempts st k)"
  by (auto simp: init_attempts_def attempts_def fun_eq_iff)

lemma attempts_counters [simp]:
  "attempts (s\<lparr>imageLoginAttempts := (imageLoginAttempts st)(k \<mapsto> v)\<rparr>) k' =
     (if k' = k then v else attempts st k')"
  by (simp add: attempts_def)

lemma attempts_users [simp]:
  "attempts (st\<lparr>authenticatedUsers := u\<rparr>) k = attempts st k"
  by (simp add: attempts_def)

lemma attempts_uploads [simp]:
  "attempts (st\<lparr>uploads := d\<rparr>) k = attempts st k"
  by (simp add: attempts_def)

lemma attempts_fresh [simp]: "attempts (fresh dir) k = 0"
  by (simp add: attempts_def fresh_def)

lemma not_array_iff:
  "(\<not> truthy v \<or> \<not> isArray v) \<longleftrightarrow> (\<forall>xs. v \<noteq> Some (JArr xs))"
  by (cases v rule: isArray.cases) auto

lemma login_429:
  "mx \<le> attempts st k \<Longrightarrow>
   login mx st k body =
     (init_attempts st k,
      Response 429 (Message ''Too many login attempts. Please try again later.''))"
  by (simp add: login_def Let_def)

lemma login_400:
  "attempts st k < mx \<Longrightarrow> \<forall>xs. get_prop body ''imageSequence'' \<noteq> Some (JArr xs) \<Longrightarrow>
   login mx st k body =
     (init_attempts st k,
      Response 400 (Message ''Image sequence is required and must be an array.''))"
  using not_array_iff [of "get_prop body ''imageSequence''"]
  by (simp add: login_def Let_def)

lemma login_200:
  "attempts st k < mx \<Longrightarrow>
   get_prop body ''imageSequence'' = Some (JArr (map JNum CORRECT_IMAGE_SEQUENCE)) \<Longrightarrow>
   login mx st k body =
     ((init_attempts st k)
        \<lparr>imageLoginAttempts := (imageLoginAttempts (init_attempts st k))(k \<mapsto> 0),
         authenticatedUsers := insert ''user_2_6_4_8'' (authenticatedUsers st)\<rparr>,
      Response 200 (Token ''Login successful!'' ''user_2_6_4_8''))"
  using token_correct
  by (simp add: login_def Let_def isCorrect_iff)

lemma login_401:
  "attempts st k < mx \<Longrightarrow> get_prop body ''imageSequence'' = Some (JArr xs) \<Longrightarrow>
   xs \<noteq> map JNum CORRECT_IMAGE_SEQUENCE \<Longrightarrow>
   login mx st k body =
     ((init_attempts st k)
        \<lparr>imageLoginAttempts :=
           (imageLoginAttempts (init_attempts st k))(k \<mapsto> attempts st k + 1)\<rparr>,
      Response 401 (Message ''Incorrect image sequence.''))"
  by (simp add: login_def Let_def isCorrect_iff)

lemma login_cases:
  obtains
    (throttled) "mx \<le> attempts st k"
  | (invalid) "attempts st k < mx" "\<forall>xs. get_prop body ''imageSequence'' \<noteq> Some (JArr xs)"
  | (correct) "attempts st k < mx"
      "get_prop body ''imageSequence'' = Some (JArr (map JNum CORRECT_IMAGE_SEQUENCE))"
  | (wrong) xs where "attempts st k < mx" "get_prop body ''imageSequence'' = Some (JArr xs)"
      "xs \<noteq> map JNum CORRECT_IMAGE_SEQUENCE"
  by (metis not_le)

lemma login_success:
  assumes "snd (login mx st k body) = Response 200 (Token m t)"
  shows "attempts st k < mx \<and>
         get_prop body ''imageSequence'' = Some (JArr (map JNum CORRECT_IMAGE_SEQUENCE)) \<and>
         m = ''Login successful!'' \<and> t = ''user_2_6_4_8''"
proof (cases rule: login_cases [where mx=mx and st=st and k=k and body=body])
  case throttled
  with assms show ?thesis by (simp add: login_429)
next
  case invalid
  with assms show ?thesis by (simp add: login_400)
next
  case correct
  with assms show ?thesis by (simp add: login_200)
next
  case (wrong xs)
  with assms show ?thesis by (simp add: login_401)
qed

lemma map_JNum_eq: "map JNum s = map JNum t \<longleftrightarrow> s = t"
  by (simp add: inj_on_def)

lemma wrong_1234:
  "get_prop (JObj [(''imageSequence'', JArr [JNum 1, JNum 2, JNum 3, JNum 4])]) ''imageSequence'' =
     Some (JArr [JNum 1, JNum 2, JNum 3, JNum 4]) \<and>
   [JNum 1, JNum 2, JNum 3, JNum 4] \<noteq> map JNum CORRECT_IMAGE_SEQUENCE"
  by (simp add: CORRECT_IMAGE_SEQUENCE_def)

lemma right_2648:
  "get_prop (JObj [(''imageSequence'', JArr [JNum 2, JNum 6, JNum 4, JNum 8])]) ''imageSequence'' =
     Some (JArr (map JNum CORRECT_IMAGE_SEQUENCE))"
  by (simp add: CORRECT_IMAGE_SEQUENCE_def)

section \<open>Runs of requests\<close>

lemma run_Cons:
  "run mx st (ev # evs) =
     (fst (run mx (fst (step mx st ev)) evs),
      snd (step mx st ev) # snd (run mx (fst (step mx st ev)) evs))"
  by (simp split: prod.splits)

lemma run_failed_logins:
  "attempts st k + int (length bodies) \<le> mx \<Longrightarrow>
   \<forall>b\<in>set bodies. \<exists>xs. get_prop b ''imageSequence'' = Some (JArr xs) \<and> \<not> isCorrect xs \<Longrightarrow>
   snd (run mx st (map (LoginReq k) bodies)) =
     replicate (length bodies) (Response 401 (Message ''Incorrect image sequence.'')) \<and>
   attempts (fst (run mx st (map (LoginReq k) bodies))) k = attempts st k + int (length bodies)"
proof (induction bodies arbitrary: st)
  case Nil
  show ?case by simp
next
  case (Cons b bodies)
  from Cons.prems obtain xs where
    b: "get_prop b ''imageSequence'' = Some (JArr xs)" "xs \<noteq> map JNum CORRECT_IMAGE_SEQUENCE"
    by (auto simp: isCorrect_iff)
  from Cons.prems have below: "attempts st k < mx" by simp
  obtain st1 where st1: "login mx st k b =
      (st1, Response 401 (Message ''Incorrect image sequence.''))"
    and a1: "attempts st1 k = attempts st k + 1"
    using login_401 [OF below b] by (simp add: counters_init)
  from Cons.prems a1 have "attempts st1 k + int (length bodies) \<le> mx" by simp
  with Cons.prems have
    "snd (run mx st1 (map (LoginReq k) bodies)) =
       replicate (length bodies) (Response 401 (Message ''Incorrect image sequence.'')) \<and>
     attempts (fst (run mx st1 (map (LoginReq k) bodies))) k =
       attempts st1 k + int (length bodies)"
    by (intro Cons.IH) simp_all
  with st1 a1 show ?case
    by (simp add: run_Cons del: run.simps)
qed

section \<open>Outcomes of the gateway\<close>

lemma authenticateToken_with_header:
  "authenticateToken st (with_header t) =
     (if t = [] then Inl (Response 401 (Message ''Authentication token required''))
      else if t \<in> authenticatedUsers st then Inr t
      else Inl (Response 403 (Message ''Invalid or expired token'')))"
  by (simp add: authenticateToken_def with_header_def bearer_def)

lemma authenticateToken_with_query:
  "authenticateToken st (with_query t) = authenticateToken st (with_header t)"
  by (simp add: authenticateToken_def with_query_def with_header_def bearer_def)

lemma authenticateToken_Inl:
  "authenticateToken st req = Inl resp \<Longrightarrow>
   resp = Response 401 (Message ''Authentication token required'') \<or>
   resp = Response 403 (Message ''Invalid or expired token'')"
  by (auto simp: authenticateToken_def split: option.splits qvalue.splits if_splits)

lemma authenticateToken_Inr:
  "authenticateToken st req = Inr u \<longleftrightarrow> bearer req = Some (QStr u) \<and> u \<noteq> [] \<and> u \<in> authenticatedUsers st"
  by (auto simp: authenticateToken_def split: option.splits qvalue.splits if_splits)

section \<open>Token issuance is deterministic\<close>

text \<open>
  C6. Any two successful logins, whatever the state of the server, the origin and the
  configured ceiling, return the same token string, and that string is computed from the
  secret sequence alone: \<^verbatim>\<open>user_\<close> followed by its elements joined with underscores.
\<close>

theorem login_token_deterministic:
  "snd (login mx1 st1 k1 body1) = Response 200 (Token m1 t1) \<Longrightarrow>
   snd (login mx2 st2 k2 body2) = Response 200 (Token m2 t2) \<Longrightarrow>
   t1 = t2 \<and> t1 = ''user_'' @ join (map JNum CORRECT_IMAGE_SEQUENCE) ''_''"
  using token_correct by (auto dest!: login_success)

theorem login_token_deterministic_witness:
  "snd (login 5 (fresh []) ''10.0.0.1''
          (JObj [(''imageSequence'', JArr [JNum 2, JNum 6, JNum 4, JNum 8])]))
     = Response 200 (Token ''Login successful!'' ''user_2_6_4_8'') \<and>
   snd (login 3 (fresh [(''a.png'', File ''x'')]) ''10.0.0.2''
          (JObj [(''imageSequence'', JArr [JNum 2, JNum 6, JNum 4, JNum 8]), (''extra'', JNull)]))
     = Response 200 (Token ''Login successful!'' ''user_2_6_4_8'') \<and>
   ''user_2_6_4_8'' = ''user_'' @ join (map JNum CORRECT_IMAGE_SEQUENCE) ''_''"
proof -
  have h1: "snd (login 5 (fresh []) ''10.0.0.1''
          (JObj [(''imageSequence'', JArr [JNum 2, JNum 6, JNum 4, JNum 8])]))
     = Response 200 (Token ''Login successful!'' ''user_2_6_4_8'')"
    by (simp add: login_200 CORRECT_IMAGE_SEQUENCE_def)
  have h2: "snd (login 3 (fresh [(''a.png'', File ''x'')]) ''10.0.0.2''
          (JObj [(''imageSequence'', JArr [JNum 2, JNum 6, JNum 4, JNum 8]), (''extra'', JNull)]))
     = Response 200 (Token ''Login successful!'' ''user_2_6_4_8'')"
    by (simp add: login_200 CORRECT_IMAGE_SEQUENCE_def)
  from login_token_deterministic [OF h1 h2] h1 h2 show ?thesis by simp
qed

section \<open>A rejected body leaves the counter alone\<close>

text \<open>
  C9. While the counter of an origin is below the ceiling, a login whose body has no
  \<^verbatim>\<open>imageSequence\<close> property, or one that is not an array, is answered with 400; the
  counter of that origin reads as before (the stored entry is the old reading, written
  back by the handler's first line) and no token is added. Whenever a login changes the
  reading of the origin's counter, it is either a 401 that adds one or a 200 that sets it
  to zero (a 400 or a 429 keeps it); the counters of all other origins are never touched.
\<close>

theorem login_invalid_body_keeps_counter:
  "(attempts st k < mx \<and> \<not> isArray (get_prop body ''imageSequence'') \<longrightarrow>
      snd (login mx st k body) =
        Response 400 (Message ''Image sequence is required and must be an array.'') \<and>
      attempts (fst (login mx st k body)) k = attempts st k \<and>
      imageLoginAttempts (fst (login mx st k body)) =
        (imageLoginAttempts st)(k \<mapsto> attempts st k) \<and>
      authenticatedUsers (fst (login mx st k body)) = authenticatedUsers st) \<and>
   ((status (snd (login mx st k body)) = 401 \<and>
       attempts (fst (login mx st k body)) k = attempts st k + 1) \<or>
    (status (snd (login mx st k body)) = 200 \<and>
       attempts (fst (login mx st k body)) k = 0) \<or>
    (status (snd (login mx st k body)) \<in> {400, 429} \<and>
       attempts (fst (login mx st k body)) k = attempts st k)) \<and>
   (k' \<noteq> k \<longrightarrow> attempts (fst (login mx st k body)) k' = attempts st k')"
proof (cases rule: login_cases [where mx=mx and st=st and k=k and body=body])
  case throttled
  then show ?thesis by (simp add: login_429)
next
  case invalid
  then show ?thesis
    by (cases "get_prop body ''imageSequence''" rule: isArray.cases)
       (simp_all add: login_400 counters_init)
next
  case correct
  then show ?thesis by (simp add: login_200 counters_init)
next
  case (wrong xs)
  then show ?thesis by (simp add: login_401 counters_init)
qed

theorem login_invalid_body_keeps_counter_witness:
  "attempts (fresh []) ''10.0.0.1'' < 5 \<and>
   \<not> isArray (get_prop (JObj [(''imageSequence'', JStr ''2648'')]) ''imageSequence'') \<and>
   snd (login 5 (fresh []) ''10.0.0.1'' (JObj [(''imageSequence'', JStr ''2648'')])) =
     Response 400 (Message ''Image sequence is required and must be an array.'') \<and>
   attempts (fst (login 5 (fresh []) ''10.0.0.1'' (JObj [(''imageSequence'', JStr ''2648'')])))
     ''10.0.0.1'' = 0 \<and>
   ''10.0.0.2'' \<noteq> ''10.0.0.1'' \<and>
   attempts (fst (login 5 (fresh []) ''10.0.0.1'' (JObj [(''imageSequence'', JStr ''2648'')])))
     ''10.0.0.2'' = 0"
  using login_invalid_body_keeps_counter
    [of "fresh []" "''10.0.0.1''" 5 "JObj [(''imageSequence'', JStr ''2648'')]" "''10.0.0.2''"]
  by simp

section \<open>The sequence check of a login\<close>

text \<open>
  C1, as stated, at a concrete input: after five failed logins from one origin (ceiling 5)
  the secret sequence itself, equal to the configured one element by element, is answered
  with 429 and no token. So a login does not succeed for every matching sequence.
\<close>

theorem login_throttled_counterexample:
  "[JNum 2, JNum 6, JNum 4, JNum 8] = map JNum CORRECT_IMAGE_SEQUENCE \<and>
   snd (login 5
     (fst (run 5 (fresh [])
        [LoginReq ''10.0.0.1'' (JObj [(''imageSequence'', JArr [JNum 1, JNum 2, JNum 3, JNum 4])]),
         LoginReq ''10.0.0.1'' (JObj [(''imageSequence'', JArr [JNum 1, JNum 2, JNum 3, JNum 4])]),
         LoginReq ''10.0.0.1'' (JObj [(''imageSequence'', JArr [JNum 1, JNum 2, JNum 3, JNum 4])]),
         LoginReq ''10.0.0.1'' (JObj [(''imageSequence'', JArr [JNum 1, JNum 2, JNum 3, JNum 4])]),
         LoginReq ''10.0.0.1'' (JObj [(''imageSequence'', JArr [JNum 1, JNum 2, JNum 3, JNum 4])])]))
     ''10.0.0.1'' (JObj [(''imageSequence'', JArr [JNum 2, JNum 6, JNum 4, JNum 8])])) =
   Response 429 (Message ''Too many login attempts. Please try again later.'')"
  using wrong_1234
  by (simp add: run_Cons login_401 login_429 counters_init CORRECT_IMAGE_SEQUENCE_def del: run.simps(2))

text \<open>
  C1, amended. For an origin whose counter is below the ceiling and every submitted list
  of numbers \<open>s\<close>: the login returns a token if and only if \<open>s\<close> has the length of the
  secret sequence and agrees with it at every position. Every other list is answered with
  401 \<^verbatim>\<open>Incorrect image sequence.\<close>, in particular a reordering of the secret, a proper
  prefix of it, a proper extension of it and a list with a strictly larger set of elements.
\<close>

theorem login_sequence_check:
  "attempts st k < mx \<Longrightarrow>
   get_prop body ''imageSequence'' = Some (JArr (map JNum s)) \<Longrightarrow>
   ((\<exists>m t. snd (login mx st k body) = Response 200 (Token m t)) \<longleftrightarrow>
      length s = length CORRECT_IMAGE_SEQUENCE \<and>
      (\<forall>i<length s. s ! i = CORRECT_IMAGE_SEQUENCE ! i)) \<and>
   (s \<noteq> CORRECT_IMAGE_SEQUENCE \<longrightarrow>
      snd (login mx st k body) = Response 401 (Message ''Incorrect image sequence.'')) \<and>
   ((mset s = mset CORRECT_IMAGE_SEQUENCE \<and> s \<noteq> CORRECT_IMAGE_SEQUENCE) \<or>
    strict_prefix s CORRECT_IMAGE_SEQUENCE \<or>
    strict_prefix CORRECT_IMAGE_SEQUENCE s \<or>
    set CORRECT_IMAGE_SEQUENCE \<subset> set s \<longrightarrow>
      snd (login mx st k body) = Response 401 (Message ''Incorrect image sequence.''))"
proof -
  assume below: "attempts st k < mx"
    and body: "get_prop body ''imageSequence'' = Some (JArr (map JNum s))"
  have eq: "(length s = length CORRECT_IMAGE_SEQUENCE \<and>
      (\<forall>i<length s. s ! i = CORRECT_IMAGE_SEQUENCE ! i)) \<longleftrightarrow> s = CORRECT_IMAGE_SEQUENCE"
    by (auto simp: list_eq_iff_nth_eq)
  have ok: "s = CORRECT_IMAGE_SEQUENCE \<Longrightarrow>
      snd (login mx st k body) = Response 200 (Token ''Login successful!'' ''user_2_6_4_8'')"
    using below body by (simp add: login_200)
  have ko: "s \<noteq> CORRECT_IMAGE_SEQUENCE \<Longrightarrow>
      snd (login mx st k body) = Response 401 (Message ''Incorrect image sequence.'')"
    using below body by (simp add: login_401 map_JNum_eq)
  have succ: "(\<exists>m t. snd (login mx st k body) = Response 200 (Token m t)) \<longleftrightarrow>
      s = CORRECT_IMAGE_SEQUENCE"
    using ok ko by (cases "s = CORRECT_IMAGE_SEQUENCE") auto
  have diff: "(mset s = mset CORRECT_IMAGE_SEQUENCE \<and> s \<noteq> CORRECT_IMAGE_SEQUENCE) \<or>
    strict_prefix s CORRECT_IMAGE_SEQUENCE \<or>
    strict_prefix CORRECT_IMAGE_SEQUENCE s \<or>
    set CORRECT_IMAGE_SEQUENCE \<subset> set s \<Longrightarrow> s \<noteq> CORRECT_IMAGE_SEQUENCE"
    by (auto simp: strict_prefix_def)
  from succ eq ko diff show ?thesis by blast
qed

theorem login_sequence_check_witness:
  "attempts (fresh []) ''10.0.0.1'' < 5 \<and>
   (\<exists>m t. snd (login 5 (fresh []) ''10.0.0.1''
        (JObj [(''imageSequence'', JArr (map JNum [2, 6, 4, 8]))])) = Response 200 (Token m t)) \<and>
   mset [8, 4, 6, 2] = mset CORRECT_IMAGE_SEQUENCE \<and>
   snd (login 5 (fresh []) ''10.0.0.1''
        (JObj [(''imageSequence'', JArr (map JNum [8, 4, 6, 2]))])) =
     Response 401 (Message ''Incorrect image sequence.'') \<and>
   strict_prefix [2, 6, 4] CORRECT_IMAGE_SEQUENCE \<and>
   snd (login 5 (fresh []) ''10.0.0.1''
        (JObj [(''imageSequence'', JArr (map JNum [2, 6, 4]))])) =
     Response 401 (Message ''Incorrect image sequence.'') \<and>
   strict_prefix CORRECT_IMAGE_SEQUENCE [2, 6, 4, 8, 1] \<and>
   set CORRECT_IMAGE_SEQUENCE \<subset> set [2, 6, 4, 8, 1] \<and>
   snd (login 5 (fresh []) ''10.0.0.1''
        (JObj [(''imageSequence'', JArr (map JNum [2, 6, 4, 8, 1]))])) =
     Response 401 (Message ''Incorrect image sequence.'')"
proof -
  have below: "attempts (fresh []) ''10.0.0.1'' < 5" by simp
  have g: "\<And>s. get_prop (JObj [(''imageSequence'', JArr (map JNum s))]) ''imageSequence'' =
      Some (JArr (map JNum s))"
    by simp
  have perm: "mset [8, 4, 6, 2] = mset CORRECT_IMAGE_SEQUENCE"
    "[8, 4, 6, 2] \<noteq> CORRECT_IMAGE_SEQUENCE"
    by (simp_all add: CORRECT_IMAGE_SEQUENCE_def)
  have pre: "strict_prefix [2, 6, 4] CORRECT_IMAGE_SEQUENCE"
    by (simp add: CORRECT_IMAGE_SEQUENCE_def strict_prefix_def)
  have "set CORRECT_IMAGE_SEQUENCE \<noteq> set [2, 6, 4, 8, 1]"
  proof
    assume "set CORRECT_IMAGE_SEQUENCE = set [2, 6, 4, 8, 1]"
    then have "1 \<in> set CORRECT_IMAGE_SEQUENCE" by simp
    then show False by (simp add: CORRECT_IMAGE_SEQUENCE_def)
  qed
  then have ext: "strict_prefix CORRECT_IMAGE_SEQUENCE [2, 6, 4, 8, 1]"
    "set CORRECT_IMAGE_SEQUENCE \<subset> set [2, 6, 4, 8, 1]"
    by (auto simp: CORRECT_IMAGE_SEQUENCE_def strict_prefix_def)
  have len: "length [2, 6, 4, 8] = length CORRECT_IMAGE_SEQUENCE \<and>
      (\<forall>i<length [2, 6, 4, 8]. [2, 6, 4, 8] ! i = CORRECT_IMAGE_SEQUENCE ! i)"
    by (simp add: CORRECT_IMAGE_SEQUENCE_def)
  from login_sequence_check [OF below g, of "[2, 6, 4, 8]"] len
  have p1: "\<exists>m t. snd (login 5 (fresh []) ''10.0.0.1''
        (JObj [(''imageSequence'', JArr (map JNum [2, 6, 4, 8]))])) = Response 200 (Token m t)"
    by blast
  from login_sequence_check [OF below g, of "[8, 4, 6, 2]"] perm
  have p2: "snd (login 5 (fresh []) ''10.0.0.1''
        (JObj [(''imageSequence'', JArr (map JNum [8, 4, 6, 2]))])) =
     Response 401 (Message ''Incorrect image sequence.'')"
    by blast
  from login_sequence_check [OF below g, of "[2, 6, 4]"] pre
  have p3: "snd (login 5 (fresh []) ''10.0.0.1''
        (JObj [(''imageSequence'', JArr (map JNum [2, 6, 4]))])) =
     Response 401 (Message ''Incorrect image sequence.'')"
    by blast
  from login_sequence_check [OF below g, of "[2, 6, 4, 8, 1]"] ext
  have p4: "snd (login 5 (fresh []) ''10.0.0.1''
        (JObj [(''imageSequence'', JArr (map JNum [2, 6, 4, 8, 1]))])) =
     Response 401 (Message ''Incorrect image sequence.'')"
    by blast
  from below perm pre ext p1 p2 p3 p4 show ?thesis by blast
qed

section \<open>The throttle\<close>

text \<open>
  C2. Once the counter of an origin has reached the ceiling, a login from that origin is
  answered with 429 whatever the body is (the result does not depend on the body, so a
  correct sequence is refused too); the counter and the session store stay as they are.
  A correct sequence submitted while the counter is below the ceiling is answered with 200
  and sets the counter of that origin to zero. Starting from a counter of zero, as many
  failed logins as the ceiling says are each answered with 401, and the login after them
  with 429.
\<close>

theorem throttle_fail_closed:
  "(mx \<le> attempts st k \<longrightarrow>
      snd (login mx st k body) =
        Response 429 (Message ''Too many login attempts. Please try again later.'') \<and>
      login mx st k body = login mx st k body' \<and>
      attempts (fst (login mx st k body)) k = attempts st k \<and>
      authenticatedUsers (fst (login mx st k body)) = authenticatedUsers st) \<and>
   (attempts st k < mx \<and> get_prop body ''imageSequence'' = Some (JArr xs) \<and> isCorrect xs \<longrightarrow>
      status (snd (login mx st k body)) = 200 \<and>
      attempts (fst (login mx st k body)) k = 0) \<and>
   (attempts st k = 0 \<and> int (length bodies) = mx \<and>
    (\<forall>b\<in>set bodies. \<exists>ys. get_prop b ''imageSequence'' = Some (JArr ys) \<and> \<not> isCorrect ys) \<longrightarrow>
      snd (run mx st (map (LoginReq k) bodies)) =
        replicate (length bodies) (Response 401 (Message ''Incorrect image sequence.'')) \<and>
      snd (login mx (fst (run mx st (map (LoginReq k) bodies))) k body) =
        Response 429 (Message ''Too many login attempts. Please try again later.''))"
proof (intro conjI impI)
  assume "mx \<le> attempts st k"
  then show "snd (login mx st k body) =
        Response 429 (Message ''Too many login attempts. Please try again later.'')"
    and "login mx st k body = login mx st k body'"
    and "attempts (fst (login mx st k body)) k = attempts st k"
    and "authenticatedUsers (fst (login mx st k body)) = authenticatedUsers st"
    by (simp_all add: login_429)
next
  assume "attempts st k < mx \<and> get_prop body ''imageSequence'' = Some (JArr xs) \<and> isCorrect xs"
  then show "status (snd (login mx st k body)) = 200"
    and "attempts (fst (login mx st k body)) k = 0"
    by (simp_all add: isCorrect_iff login_200 counters_init)
next
  assume h: "attempts st k = 0 \<and> int (length bodies) = mx \<and>
    (\<forall>b\<in>set bodies. \<exists>ys. get_prop b ''imageSequence'' = Some (JArr ys) \<and> \<not> isCorrect ys)"
  then have r: "snd (run mx st (map (LoginReq k) bodies)) =
     replicate (length bodies) (Response 401 (Message ''Incorrect image sequence.'')) \<and>
   attempts (fst (run mx st (map (LoginReq k) bodies))) k = attempts st k + int (length bodies)"
    by (intro run_failed_logins) simp_all
  then show "snd (run mx st (map (LoginReq k) bodies)) =
     replicate (length bodies) (Response 401 (Message ''Incorrect image sequence.''))"
    by simp
  from r h have "mx \<le> attempts (fst (run mx st (map (LoginReq k) bodies))) k" by simp
  then show "snd (login mx (fst (run mx st (map (LoginReq k) bodies))) k body) =
        Response 429 (Message ''Too many login attempts. Please try again later.'')"
    by (simp add: login_429)
qed

theorem throttle_fail_closed_witness:
  "(5 \<le> attempts (fresh []\<lparr>imageLoginAttempts := [''10.0.0.1'' \<mapsto> 5]\<rparr>) ''10.0.0.1'' \<and>
    snd (login 5 (fresh []\<lparr>imageLoginAttempts := [''10.0.0.1'' \<mapsto> 5]\<rparr>) ''10.0.0.1''
           (JObj [(''imageSequence'', JArr [JNum 2, JNum 6, JNum 4, JNum 8])])) =
      Response 429 (Message ''Too many login attempts. Please try again later.'')) \<and>
   (attempts (fresh []\<lparr>imageLoginAttempts := [''10.0.0.1'' \<mapsto> 3]\<rparr>) ''10.0.0.1'' < 5 \<and>
    isCorrect [JNum 2, JNum 6, JNum 4, JNum 8] \<and>
    attempts (fst (login 5 (fresh []\<lparr>imageLoginAttempts := [''10.0.0.1'' \<mapsto> 3]\<rparr>) ''10.0.0.1''
           (JObj [(''imageSequence'', JArr [JNum 2, JNum 6, JNum 4, JNum 8])]))) ''10.0.0.1'' = 0) \<and>
   (attempts (fresh []) ''10.0.0.1'' = 0 \<and>
    \<not> isCorrect [JNum 8, JNum 4, JNum 6, JNum 2] \<and>
    snd (login 2 (fst (run 2 (fresh [])
          (map (LoginReq ''10.0.0.1'')
             [JObj [(''imageSequence'', JArr [JNum 8, JNum 4, JNum 6, JNum 2])],
              JObj [(''imageSequence'', JArr [JNum 8, JNum 4, JNum 6, JNum 2])]])))
       ''10.0.0.1'' (JObj [(''imageSequence'', JArr [JNum 2, JNum 6, JNum 4, JNum 8])])) =
      Response 429 (Message ''Too many login attempts. Please try again later.''))"
proof -
  let ?good = "JObj [(''imageSequence'', JArr [JNum 2, JNum 6, JNum 4, JNum 8])]"
  let ?bad = "JObj [(''imageSequence'', JArr [JNum 8, JNum 4, JNum 6, JNum 2])]"
  have c: "isCorrect [JNum 2, JNum 6, JNum 4, JNum 8]"
    and w: "\<not> isCorrect [JNum 8, JNum 4, JNum 6, JNum 2]"
    by (simp_all add: isCorrect_iff CORRECT_IMAGE_SEQUENCE_def)
  have a5: "5 \<le> attempts (fresh []\<lparr>imageLoginAttempts := [''10.0.0.1'' \<mapsto> 5]\<rparr>) ''10.0.0.1''"
    and a3: "attempts (fresh []\<lparr>imageLoginAttempts := [''10.0.0.1'' \<mapsto> 3]\<rparr>) ''10.0.0.1'' < 5"
    by (simp_all add: attempts_def)
  from a5 throttle_fail_closed
    [of 5 "fresh []\<lparr>imageLoginAttempts := [''10.0.0.1'' \<mapsto> 5]\<rparr>" "''10.0.0.1''" ?good]
  have p1: "snd (login 5 (fresh []\<lparr>imageLoginAttempts := [''10.0.0.1'' \<mapsto> 5]\<rparr>) ''10.0.0.1'' ?good) =
      Response 429 (Message ''Too many login attempts. Please try again later.'')"
    by blast
  from a3 c throttle_fail_closed
    [of 5 "fresh []\<lparr>imageLoginAttempts := [''10.0.0.1'' \<mapsto> 3]\<rparr>" "''10.0.0.1''" ?good _
        "[JNum 2, JNum 6, JNum 4, JNum 8]"]
  have p2: "attempts (fst (login 5 (fresh []\<lparr>imageLoginAttempts := [''10.0.0.1'' \<mapsto> 3]\<rparr>)
       ''10.0.0.1'' ?good)) ''10.0.0.1'' = 0"
    by simp
  from w throttle_fail_closed
    [of 2 "fresh []" "''10.0.0.1''" ?good _ _ "[?bad, ?bad]"]
  have p3: "snd (login 2 (fst (run 2 (fresh []) (map (LoginReq ''10.0.0.1'') [?bad, ?bad])))
       ''10.0.0.1'' ?good) =
      Response 429 (Message ''Too many login attempts. Please try again later.'')"
    by simp
  from c w a5 a3 p1 p2 p3 show ?thesis by simp
qed

section \<open>The example scenario\<close>

text \<open>
  C5, as stated, at a concrete input: with ceiling 5, after four failed calls the counter
  is 4, and the fifth call is still verified: the secret sequence is answered with 200 and
  a token, a wrong one with 401. It is not answered with 429.
\<close>

theorem scenario_fifth_call_counterexample:
  "MAX_IMAGE_LOGIN_ATTEMPTS None = 5 \<and>
   (let bad = JObj [(''imageSequence'', JArr [JNum 1, JNum 2, JNum 3, JNum 4])];
        good = JObj [(''imageSequence'', JArr [JNum 2, JNum 6, JNum 4, JNum 8])];
        st4 = fst (run 5 (fresh []) (map (LoginReq ''10.0.0.1'') [bad, bad, bad, bad]))
    in attempts st4 ''10.0.0.1'' = 4 \<and>
       snd (login 5 st4 ''10.0.0.1'' good) =
         Response 200 (Token ''Login successful!'' ''user_2_6_4_8'') \<and>
       snd (login 5 st4 ''10.0.0.1'' bad) =
         Response 401 (Message ''Incorrect image sequence.''))"
proof -
  let ?bad = "JObj [(''imageSequence'', JArr [JNum 1, JNum 2, JNum 3, JNum 4])]"
  let ?st4 = "fst (run 5 (fresh []) (map (LoginReq ''10.0.0.1'') [?bad, ?bad, ?bad, ?bad]))"
  have "attempts ?st4 ''10.0.0.1'' = attempts (fresh []) ''10.0.0.1'' + int (length [?bad, ?bad, ?bad, ?bad])"
    using wrong_1234 by (intro run_failed_logins [THEN conjunct2]) (simp_all add: isCorrect_iff)
  then have a4: "attempts ?st4 ''10.0.0.1'' = 4" by simp
  then have below: "attempts ?st4 ''10.0.0.1'' < 5" by simp
  have "snd (login 5 ?st4 ''10.0.0.1'' ?bad) = Response 401 (Message ''Incorrect image sequence.'')"
    using login_401 [OF below] wrong_1234 by simp
  moreover have "snd (login 5 ?st4 ''10.0.0.1''
        (JObj [(''imageSequence'', JArr [JNum 2, JNum 6, JNum 4, JNum 8])])) =
      Response 200 (Token ''Login successful!'' ''user_2_6_4_8'')"
    using login_200 [OF below right_2648] by simp
  moreover have "MAX_IMAGE_LOGIN_ATTEMPTS None = 5"
    by (simp add: MAX_IMAGE_LOGIN_ATTEMPTS_def)
  ultimately show ?thesis using a4 by (simp only: Let_def)
qed

text \<open>
  C5, amended. With ceiling 5 (the default when the environment sets none) and the secret
  sequence [2,6,4,8], starting from no recorded attempts of an origin: four calls with
  [1,2,3,4] are each answered with 401 and bring the counter to 4; the fifth call is still
  verified (401 and a counter of 5 for [1,2,3,4], 200 with the token for [2,6,4,8]); after
  five failed calls a call with any body is answered with 429; in a process started anew,
  a call with [2,6,4,8] is answered with 200 and the token \<^verbatim>\<open>user_2_6_4_8\<close>, and a repeat
  call with the same token string.
\<close>

theorem scenario_ceiling_five:
  "MAX_IMAGE_LOGIN_ATTEMPTS None = 5 \<and>
   (let bad = JObj [(''imageSequence'', JArr [JNum 1, JNum 2, JNum 3, JNum 4])];
        good = JObj [(''imageSequence'', JArr [JNum 2, JNum 6, JNum 4, JNum 8])];
        st4 = fst (run 5 (fresh dir) (map (LoginReq k) [bad, bad, bad, bad]));
        st5 = fst (run 5 (fresh dir) (map (LoginReq k) [bad, bad, bad, bad, bad]))
    in snd (run 5 (fresh dir) (map (LoginReq k) [bad, bad, bad, bad])) =
         [Response 401 (Message ''Incorrect image sequence.''),
          Response 401 (Message ''Incorrect image sequence.''),
          Response 401 (Message ''Incorrect image sequence.''),
          Response 401 (Message ''Incorrect image sequence.'')] \<and>
       attempts st4 k = 4 \<and>
       snd (login 5 st4 k bad) = Response 401 (Message ''Incorrect image sequence.'') \<and>
       attempts (fst (login 5 st4 k bad)) k = 5 \<and>
       snd (login 5 st4 k good) = Response 200 (Token ''Login successful!'' ''user_2_6_4_8'') \<and>
       attempts st5 k = 5 \<and>
       snd (login 5 st5 k body) =
         Response 429 (Message ''Too many login attempts. Please try again later.'') \<and>
       snd (run 5 (fresh dir') [LoginReq k good, LoginReq k good]) =
         [Response 200 (Token ''Login successful!'' ''user_2_6_4_8''),
          Response 200 (Token ''Login successful!'' ''user_2_6_4_8'')])"
proof -
  let ?bad = "JObj [(''imageSequence'', JArr [JNum 1, JNum 2, JNum 3, JNum 4])]"
  let ?good = "JObj [(''imageSequence'', JArr [JNum 2, JNum 6, JNum 4, JNum 8])]"
  let ?st4 = "fst (run 5 (fresh dir) (map (LoginReq k) [?bad, ?bad, ?bad, ?bad]))"
  let ?st5 = "fst (run 5 (fresh dir) (map (LoginReq k) [?bad, ?bad, ?bad, ?bad, ?bad]))"
  have "snd (run 5 (fresh dir) (map (LoginReq k) [?bad, ?bad, ?bad, ?bad])) =
          replicate (length [?bad, ?bad, ?bad, ?bad])
            (Response 401 (Message ''Incorrect image sequence.'')) \<and>
        attempts ?st4 k = attempts (fresh dir) k + int (length [?bad, ?bad, ?bad, ?bad])"
    using wrong_1234 by (intro run_failed_logins) (simp_all add: isCorrect_iff)
  then have r4: "snd (run 5 (fresh dir) (map (LoginReq k) [?bad, ?bad, ?bad, ?bad])) =
         [Response 401 (Message ''Incorrect image sequence.''),
          Response 401 (Message ''Incorrect image sequence.''),
          Response 401 (Message ''Incorrect image sequence.''),
          Response 401 (Message ''Incorrect image sequence.'')]"
    and a4: "attempts ?st4 k = 4"
    by (simp_all add: numeral_eq_Suc)
  from a4 have below: "attempts ?st4 k < 5" by simp
  have f5: "login 5 ?st4 k ?bad =
      ((init_attempts ?st4 k)
        \<lparr>imageLoginAttempts := (imageLoginAttempts (init_attempts ?st4 k))(k \<mapsto> attempts ?st4 k + 1)\<rparr>,
       Response 401 (Message ''Incorrect image sequence.''))"
    using wrong_1234 by (intro login_401 [OF below]) simp_all
  then have b5: "snd (login 5 ?st4 k ?bad) = Response 401 (Message ''Incorrect image sequence.'')"
    and c5: "attempts (fst (login 5 ?st4 k ?bad)) k = 5"
    using a4 by (simp_all add: counters_init)
  have g5: "snd (login 5 ?st4 k ?good) =
      Response 200 (Token ''Login successful!'' ''user_2_6_4_8'')"
    using login_200 [OF below right_2648] by simp
  have "attempts ?st5 k = attempts (fresh dir) k + int (length [?bad, ?bad, ?bad, ?bad, ?bad])"
    using wrong_1234 by (intro run_failed_logins [THEN conjunct2]) (simp_all add: isCorrect_iff)
  then have a5: "attempts ?st5 k = 5" by simp
  then have t6: "snd (login 5 ?st5 k body) =
      Response 429 (Message ''Too many login attempts. Please try again later.'')"
    by (simp add: login_429)
  have first: "login 5 (fresh dir') k ?good =
      ((init_attempts (fresh dir') k)
        \<lparr>imageLoginAttempts := (imageLoginAttempts (init_attempts (fresh dir') k))(k \<mapsto> 0),
         authenticatedUsers := insert ''user_2_6_4_8'' (authenticatedUsers (fresh dir'))\<rparr>,
       Response 200 (Token ''Login successful!'' ''user_2_6_4_8''))"
    using right_2648 by (intro login_200) simp_all
  have a1: "attempts (fst (login 5 (fresh dir') k ?good)) k < 5"
    by (simp add: first counters_init)
  have again: "snd (login 5 (fst (login 5 (fresh dir') k ?good)) k ?good) =
      Response 200 (Token ''Login successful!'' ''user_2_6_4_8'')"
    using login_200 [OF a1 right_2648] by simp
  have twice: "snd (run 5 (fresh dir') [LoginReq k ?good, LoginReq k ?good]) =
         [Response 200 (Token ''Login successful!'' ''user_2_6_4_8''),
          Response 200 (Token ''Login successful!'' ''user_2_6_4_8'')]"
    using again by (simp add: run_Cons first del: run.simps(2))
  have mx: "MAX_IMAGE_LOGIN_ATTEMPTS None = 5"
    by (simp add: MAX_IMAGE_LOGIN_ATTEMPTS_def)
  from r4 a4 b5 c5 g5 a5 t6 twice mx show ?thesis
    by (simp only: Let_def)
qed

theorem scenario_ceiling_five_witness:
  "snd (run 5 (fresh [])
     (map (LoginReq ''10.0.0.1'')
        [JObj [(''imageSequence'', JArr [JNum 1, JNum 2, JNum 3, JNum 4])],
         JObj [(''imageSequence'', JArr [JNum 1, JNum 2, JNum 3, JNum 4])],
         JObj [(''imageSequence'', JArr [JNum 1, JNum 2, JNum 3, JNum 4])],
         JObj [(''imageSequence'', JArr [JNum 1, JNum 2, JNum 3, JNum 4])]])) =
     [Response 401 (Message ''Incorrect image sequence.''),
      Response 401 (Message ''Incorrect image sequence.''),
      Response 401 (Message ''Incorrect image sequence.''),
      Response 401 (Message ''Incorrect image sequence.'')] \<and>
   snd (login 5
     (fst (run 5 (fresh [])
        (map (LoginReq ''10.0.0.1'')
           [JObj [(''imageSequence'', JArr [JNum 1, JNum 2, JNum 3, JNum 4])],
            JObj [(''imageSequence'', JArr [JNum 1, JNum 2, JNum 3, JNum 4])],
            JObj [(''imageSequence'', JArr [JNum 1, JNum 2, JNum 3, JNum 4])],
            JObj [(''imageSequence'', JArr [JNum 1, JNum 2, JNum 3, JNum 4])],
            JObj [(''imageSequence'', JArr [JNum 1, JNum 2, JNum 3, JNum 4])]])))
     ''10.0.0.1'' (JObj [(''imageSequence'', JArr [JNum 2, JNum 6, JNum 4, JNum 8])])) =
     Response 429 (Message ''Too many login attempts. Please try again later.'') \<and>
   snd (run 5 (fresh [])
     [LoginReq ''10.0.0.1'' (JObj [(''imageSequence'', JArr [JNum 2, JNum 6, JNum 4, JNum 8])]),
      LoginReq ''10.0.0.1'' (JObj [(''imageSequence'', JArr [JNum 2, JNum 6, JNum 4, JNum 8])])]) =
     [Response 200 (Token ''Login successful!'' ''user_2_6_4_8''),
      Response 200 (Token ''Login successful!'' ''user_2_6_4_8'')]"
  using scenario_ceiling_five
    [where dir = "[]" and k = "''10.0.0.1''" and dir' = "[]"
       and body = "JObj [(''imageSequence'', JArr [JNum 2, JNum 6, JNum 4, JNum 8])]"]
  by (simp only: Let_def)

section \<open>One gate for every carrier and route\<close>

text \<open>
  C10. On every route the gateway gives the same outcome for a token in the \<^verbatim>\<open>token\<close>
  query parameter as for the same token in the \<^verbatim>\<open>Authorization\<close> header. The upload,
  list, download, preview, notes, vault and admin-check routes all pass through it, and
  there a token is accepted exactly when it is non-empty and in the session store. A
  non-empty header wins over the query parameter; an absent or empty header falls back
  to it.
\<close>

theorem gateway_carrier_independent:
  "gateway r st (with_query t) = gateway r st (with_header t) \<and>
   (r \<in> {PostUpload, GetFiles, GetDownload, GetImages, GetNotes, PostNotes, PutNotes,
          DeleteNotes, GetPasswords, PostPasswords, DeletePasswords, PostAdminCheckPassword} \<longrightarrow>
      protected r \<and>
      ((\<exists>u. gateway r st (with_query t) = Inr (Some u)) \<longleftrightarrow> t \<noteq> [] \<and> t \<in> authenticatedUsers st)) \<and>
   (h \<noteq> [] \<longrightarrow>
      authenticateToken st \<lparr>authorization = Some h, query_token = q\<rparr> =
        authenticateToken st (with_header h)) \<and>
   authenticateToken st \<lparr>authorization = None, query_token = Some (QStr t)\<rparr> =
     authenticateToken st (with_header t) \<and>
   authenticateToken st \<lparr>authorization = Some [], query_token = Some (QStr t)\<rparr> =
     authenticateToken st (with_header t)"
proof (intro conjI impI)
  show "gateway r st (with_query t) = gateway r st (with_header t)"
    by (simp add: gateway_def authenticateToken_with_query)
next
  assume r: "r \<in> {PostUpload, GetFiles, GetDownload, GetImages, GetNotes, PostNotes, PutNotes,
          DeleteNotes, GetPasswords, PostPasswords, DeletePasswords, PostAdminCheckPassword}"
  then show p: "protected r" by auto
  then show "(\<exists>u. gateway r st (with_query t) = Inr (Some u)) \<longleftrightarrow>
      t \<noteq> [] \<and> t \<in> authenticatedUsers st"
    by (simp add: gateway_def authenticateToken_with_query authenticateToken_with_header)
next
  assume "h \<noteq> []"
  then show "authenticateToken st \<lparr>authorization = Some h, query_token = q\<rparr> =
        authenticateToken st (with_header h)"
    by (simp add: authenticateToken_def with_header_def bearer_def)
next
  show "authenticateToken st \<lparr>authorization = None, query_token = Some (QStr t)\<rparr> =
     authenticateToken st (with_header t)"
    by (simp add: authenticateToken_def with_header_def bearer_def)
next
  show "authenticateToken st \<lparr>authorization = Some [], query_token = Some (QStr t)\<rparr> =
     authenticateToken st (with_header t)"
    by (simp add: authenticateToken_def with_header_def bearer_def)
qed

theorem gateway_carrier_independent_witness:
  "GetNotes \<in> {PostUpload, GetFiles, GetDownload, GetImages, GetNotes, PostNotes, PutNotes,
          DeleteNotes, GetPasswords, PostPasswords, DeletePasswords, PostAdminCheckPassword} \<and>
   gateway GetNotes (fresh []\<lparr>authenticatedUsers := {''user_2_6_4_8''}\<rparr>)
     (with_query ''user_2_6_4_8'') = Inr (Some ''user_2_6_4_8'') \<and>
   gateway GetNotes (fresh []\<lparr>authenticatedUsers := {''user_2_6_4_8''}\<rparr>)
     (with_header ''user_2_6_4_8'') = Inr (Some ''user_2_6_4_8'') \<and>
   ''user_2_6_4_8'' \<noteq> [] \<and>
   authenticateToken (fresh []\<lparr>authenticatedUsers := {''user_2_6_4_8''}\<rparr>)
     \<lparr>authorization = Some ''user_2_6_4_8'', query_token = Some (QStr ''guess'')\<rparr> =
     Inr ''user_2_6_4_8''"
proof -
  have a: "authenticateToken (fresh []\<lparr>authenticatedUsers := {''user_2_6_4_8''}\<rparr>)
     (with_header ''user_2_6_4_8'') = Inr ''user_2_6_4_8''"
    by (simp add: authenticateToken_with_header)
  then have g: "gateway GetNotes (fresh []\<lparr>authenticatedUsers := {''user_2_6_4_8''}\<rparr>)
     (with_header ''user_2_6_4_8'') = Inr (Some ''user_2_6_4_8'')"
    by (simp add: gateway_def)
  from a g gateway_carrier_independent
    [of GetNotes "fresh []\<lparr>authenticatedUsers := {''user_2_6_4_8''}\<rparr>" "''user_2_6_4_8''"
        "''user_2_6_4_8''" "Some (QStr ''guess'')"]
  show ?thesis by simp
qed

section \<open>The session store\<close>

text \<open>
  The members of \<^verbatim>\<open>authenticatedUsers\<close> after any sequence of requests are the members
  before it and the tokens handed out on the way: only a successful login adds one, and
  no request removes one.
\<close>

lemma issued_Cons:
  "issued (resp # resps) =
     (case payload resp of Token msg t \<Rightarrow> insert t (issued resps) | _ \<Rightarrow> issued resps)"
  by (cases resp; cases "payload resp") auto

lemma payload_rejected:
  "authenticateToken st req = Inl resp \<Longrightarrow> \<exists>m. payload resp = Message m"
  by (auto dest: authenticateToken_Inl)

lemma login_users:
  "authenticatedUsers (fst (login mx st k body)) =
     authenticatedUsers st \<union> issued [snd (login mx st k body)]"
proof (cases rule: login_cases [where mx=mx and st=st and k=k and body=body])
  case throttled
  then show ?thesis by (simp add: login_429)
next
  case invalid
  then show ?thesis by (simp add: login_400)
next
  case correct
  then show ?thesis by (simp add: login_200)
next
  case (wrong xs)
  then show ?thesis by (simp add: login_401)
qed

lemma upload_users:
  "authenticatedUsers (fst (upload st req file)) = authenticatedUsers st \<and>
   issued [snd (upload st req file)] = {}"
  by (auto simp: upload_def Let_def issued_Cons dest: payload_rejected
      split: sum.splits option.splits)

lemma download_issued: "issued [download st req name] = {}"
  by (auto simp: download_def issued_Cons dest: payload_rejected
      split: sum.splits option.splits entry.splits)

lemma images_issued: "issued [images st req name] = {}"
  by (auto simp: images_def issued_Cons dest: payload_rejected
      split: sum.splits option.splits entry.splits)

lemma files_issued: "issued [files st req] = {}"
  by (auto simp: files_def issued_Cons dest: payload_rejected split: sum.splits)

lemma step_users:
  "authenticatedUsers (fst (step mx st ev)) =
     authenticatedUsers st \<union> issued [snd (step mx st ev)]"
  by (cases ev)
     (simp_all add: login_users upload_users download_issued images_issued files_issued)

lemma issued_single: "issued (resp # resps) = issued [resp] \<union> issued resps"
  by (simp add: issued_Cons split: payload.splits)

lemma run_users:
  "authenticatedUsers (fst (run mx st evs)) =
     authenticatedUsers st \<union> issued (snd (run mx st evs))"
proof (induction evs arbitrary: st)
  case Nil
  show ?case by simp
next
  case (Cons ev evs)
  have "authenticatedUsers (fst (run mx st (ev # evs))) =
      authenticatedUsers (fst (step mx st ev)) \<union> issued (snd (run mx (fst (step mx st ev)) evs))"
    by (simp add: run_Cons Cons.IH del: run.simps(2))
  also have "\<dots> = authenticatedUsers st \<union>
      (issued [snd (step mx st ev)] \<union> issued (snd (run mx (fst (step mx st ev)) evs)))"
    by (simp add: step_users Un_assoc)
  also have "\<dots> = authenticatedUsers st \<union> issued (snd (run mx st (ev # evs)))"
    using issued_single [of "snd (step mx st ev)" "snd (run mx (fst (step mx st ev)) evs)"]
    by (simp add: run_Cons del: run.simps(2))
  finally show ?case .
qed

text \<open>
  C3, as stated, at a concrete input: a client logs in, receives \<^verbatim>\<open>user_2_6_4_8\<close> and logs
  out. The logout clears the client's stored token only; the server still validates the
  token and returns its identity. The server has no operation that revokes a token.
\<close>

theorem logout_keeps_session_counterexample:
  "snd (login 5 (fresh []) ''10.0.0.1''
         (JObj [(''imageSequence'', JArr [JNum 2, JNum 6, JNum 4, JNum 8])])) =
     Response 200 (Token ''Login successful!'' ''user_2_6_4_8'') \<and>
   authToken (snd (handleLogout
       (fst (login 5 (fresh []) ''10.0.0.1''
              (JObj [(''imageSequence'', JArr [JNum 2, JNum 6, JNum 4, JNum 8])])),
        \<lparr>authToken = Some ''user_2_6_4_8''\<rparr>))) = None \<and>
   authenticateToken (fst (handleLogout
       (fst (login 5 (fresh []) ''10.0.0.1''
              (JObj [(''imageSequence'', JArr [JNum 2, JNum 6, JNum 4, JNum 8])])),
        \<lparr>authToken = Some ''user_2_6_4_8''\<rparr>)))
     (with_header ''user_2_6_4_8'') = Inr ''user_2_6_4_8''"
  using right_2648
  by (simp add: login_200 handleLogout_def authenticateToken_with_header)

text \<open>
  C3, amended. The token a successful login returns validates, in the state the login
  leaves, to that same token as the identity, from the header as from the query
  parameter. In a process that started with an empty store the members of the store are
  exactly the tokens the responses handed out, so a token that was never issued is
  rejected (403, or 401 when it is empty). There is no revocation: a logout leaves the
  server as it is, and a request that is authenticated stays authenticated after any
  further requests.
\<close>

theorem session_store_validate:
  "(snd (login mx st k body) = Response 200 (Token msg t) \<longrightarrow>
      authenticateToken (fst (login mx st k body)) (with_header t) = Inr t \<and>
      authenticateToken (fst (login mx st k body)) (with_query t) = Inr t) \<and>
   authenticatedUsers (fst (run mx (fresh dir) evs)) = issued (snd (run mx (fresh dir) evs)) \<and>
   (t' \<notin> issued (snd (run mx (fresh dir) evs)) \<longrightarrow>
      authenticateToken (fst (run mx (fresh dir) evs)) (with_header t') =
        Inl (if t' = [] then Response 401 (Message ''Authentication token required'')
             else Response 403 (Message ''Invalid or expired token''))) \<and>
   authenticateToken (fst (handleLogout (st, c))) req = authenticateToken st req \<and>
   (authenticateToken st req = Inr u \<longrightarrow>
      authenticateToken (fst (run mx st evs)) req = Inr u)"
proof (intro conjI impI)
  assume ok: "snd (login mx st k body) = Response 200 (Token msg t)"
  from login_success [OF ok] have t: "t = ''user_2_6_4_8''" by simp
  from ok have "t \<in> authenticatedUsers (fst (login mx st k body))"
    by (simp add: login_users)
  with t show "authenticateToken (fst (login mx st k body)) (with_header t) = Inr t"
    by (simp add: authenticateToken_with_header)
  then show "authenticateToken (fst (login mx st k body)) (with_query t) = Inr t"
    by (simp add: authenticateToken_with_query)
next
  show mem: "authenticatedUsers (fst (run mx (fresh dir) evs)) =
      issued (snd (run mx (fresh dir) evs))"
    by (simp add: run_users) (simp add: fresh_def)
  assume "t' \<notin> issued (snd (run mx (fresh dir) evs))"
  with mem show "authenticateToken (fst (run mx (fresh dir) evs)) (with_header t') =
        Inl (if t' = [] then Response 401 (Message ''Authentication token required'')
             else Response 403 (Message ''Invalid or expired token''))"
    by (simp add: authenticateToken_with_header)
next
  show "authenticateToken (fst (handleLogout (st, c))) req = authenticateToken st req"
    by (simp add: handleLogout_def)
next
  assume "authenticateToken st req = Inr u"
  then show "authenticateToken (fst (run mx st evs)) req = Inr u"
    by (simp add: authenticateToken_Inr run_users)
qed

theorem session_store_validate_witness:
  "snd (login 5 (fresh []) ''10.0.0.1''
         (JObj [(''imageSequence'', JArr [JNum 2, JNum 6, JNum 4, JNum 8])])) =
     Response 200 (Token ''Login successful!'' ''user_2_6_4_8'') \<and>
   authenticateToken
     (fst (login 5 (fresh []) ''10.0.0.1''
         (JObj [(''imageSequence'', JArr [JNum 2, JNum 6, JNum 4, JNum 8])])))
     (with_header ''user_2_6_4_8'') = Inr ''user_2_6_4_8'' \<and>
   ''user_1_2_3_4'' \<notin> issued (snd (run 5 (fresh [])
       [LoginReq ''10.0.0.1'' (JObj [(''imageSequence'', JArr [JNum 2, JNum 6, JNum 4, JNum 8])])])) \<and>
   authenticateToken
     (fst (run 5 (fresh [])
       [LoginReq ''10.0.0.1'' (JObj [(''imageSequence'', JArr [JNum 2, JNum 6, JNum 4, JNum 8])])]))
     (with_header ''user_1_2_3_4'') = Inl (Response 403 (Message ''Invalid or expired token'')) \<and>
   authenticateToken (fresh []\<lparr>authenticatedUsers := {''user_2_6_4_8''}\<rparr>)
     (with_header ''user_2_6_4_8'') = Inr ''user_2_6_4_8'' \<and>
   authenticateToken
     (fst (run 5 (fresh []\<lparr>authenticatedUsers := {''user_2_6_4_8''}\<rparr>)
        [UploadReq (with_header ''user_2_6_4_8'') (Some (''a.png'', ''x''))]))
     (with_header ''user_2_6_4_8'') = Inr ''user_2_6_4_8''"
proof -
  let ?good = "JObj [(''imageSequence'', JArr [JNum 2, JNum 6, JNum 4, JNum 8])]"
  let ?st = "fresh []\<lparr>authenticatedUsers := {''user_2_6_4_8''}\<rparr>"
  have ok: "snd (login 5 (fresh []) ''10.0.0.1'' ?good) =
     Response 200 (Token ''Login successful!'' ''user_2_6_4_8'')"
    using right_2648 by (simp add: login_200)
  have ni: "''user_1_2_3_4'' \<notin> issued (snd (run 5 (fresh []) [LoginReq ''10.0.0.1'' ?good]))"
    using ok by (simp add: run_Cons del: run.simps(2))
  have v: "authenticateToken ?st (with_header ''user_2_6_4_8'') = Inr ''user_2_6_4_8''"
    by (simp add: authenticateToken_with_header)
  from ok session_store_validate
    [where mx = 5 and st = "fresh []" and k = "''10.0.0.1''" and body = ?good
       and msg = "''Login successful!''" and t = "''user_2_6_4_8''"]
  have p1: "authenticateToken (fst (login 5 (fresh []) ''10.0.0.1'' ?good))
     (with_header ''user_2_6_4_8'') = Inr ''user_2_6_4_8''"
    by blast
  from ni session_store_validate
    [where mx = 5 and dir = "[]" and evs = "[LoginReq ''10.0.0.1'' ?good]"
       and t' = "''user_1_2_3_4''"]
  have p2: "authenticateToken (fst (run 5 (fresh []) [LoginReq ''10.0.0.1'' ?good]))
     (with_header ''user_1_2_3_4'') = Inl (Response 403 (Message ''Invalid or expired token''))"
    by simp
  from v session_store_validate
    [where mx = 5 and st = ?st and req = "with_header ''user_2_6_4_8''"
       and u = "''user_2_6_4_8''"
       and evs = "[UploadReq (with_header ''user_2_6_4_8'') (Some (''a.png'', ''x''))]"]
  have p3: "authenticateToken
     (fst (run 5 ?st [UploadReq (with_header ''user_2_6_4_8'') (Some (''a.png'', ''x''))]))
     (with_header ''user_2_6_4_8'') = Inr ''user_2_6_4_8''"
    by blast
  from ok ni v p1 p2 p3 show ?thesis by blast
qed

section \<open>A process that has just started\<close>




section \<open>Upload, then download\<close>

text \<open>
  A name the upload stores is a single name of the upload directory, so the download of
  that name looks at the entry just written. The download then returns the content last
  uploaded under the name, unless the name begins with a dot; a second upload under the
  name succeeds like the first.
\<close>

lemma map_of_put: "map_of (put name e dir) = (map_of dir)(name \<mapsto> e)"
  by (induction dir) (auto simp: fun_eq_iff)

lemma gate_uploads [simp]:
  "authenticateToken (st\<lparr>uploads := d\<rparr>) req = authenticateToken st req"
  by (simp add: authenticateToken_def split: option.splits qvalue.splits)

lemma segments_plain: "CHR ''/'' \<notin> set name \<Longrightarrow> segments name = [name]"
  by (induction name) auto

lemma path_join_plain:
  "CHR ''/'' \<notin> set name \<Longrightarrow> name \<noteq> [] \<Longrightarrow> name \<noteq> ''.'' \<Longrightarrow> name \<noteq> ''..'' \<Longrightarrow>
   path_join name = (0, [name])"
  by (simp add: path_join_def segments_plain)

lemma basename_plain:
  assumes "basename filename \<noteq> []"
  shows "CHR ''/'' \<notin> set (basename filename) \<and> basename filename \<noteq> ''.'' \<and>
         basename filename \<noteq> ''..''"
proof -
  let ?name = "rev (takeWhile (\<lambda>c. c \<noteq> CHR ''/'' \<and> c \<noteq> CHR 0x5C) (rev filename))"
  from assms have b: "basename filename = ?name" and "?name \<noteq> ''.''" and "?name \<noteq> ''..''"
    by (auto simp: basename_def Let_def split: if_splits)
  moreover have "CHR ''/'' \<notin> set ?name"
    by (auto dest: set_takeWhileD)
  ultimately show ?thesis by simp
qed

lemma no_trailing_slash:
  assumes "CHR ''/'' \<notin> set name"
  shows "\<not> trailing_slash name"
proof
  assume "trailing_slash name"
  then have "name \<noteq> []" and l: "last name = CHR ''/''"
    by (simp_all add: trailing_slash_def)
  then have "last name \<in> set name" by (intro last_in_set)
  with l assms show False by simp
qed

lemma lookup_entry: "lookup st (0, [name]) = statSync (uploads st) name"
  by (simp add: lookup_def)

lemma dotfile_entry: "name \<noteq> [] \<Longrightarrow> dotfile (0, [name]) \<longleftrightarrow> hd name = CHR ''.''"
  by (cases name) (simp_all add: dotfile_def final_def)

lemma upload_ok:
  "authenticateToken st req = Inr user \<Longrightarrow> basename filename \<noteq> [] \<Longrightarrow>
   statSync (uploads st) (basename filename) \<noteq> Some Directory \<Longrightarrow>
   upload st req (Some (filename, content)) =
     (st\<lparr>uploads := put (basename filename) (File content) (uploads st)\<rparr>,
      Response 200 (Filename ''File uploaded successfully!'' (basename filename)))"
  by (simp add: upload_def Let_def)

lemma upload_success:
  "snd (upload st req (Some (filename, content))) = Response 200 (Filename msg name) \<Longrightarrow>
   (\<exists>user. authenticateToken st req = Inr user) \<and> name = basename filename \<and> name \<noteq> [] \<and>
   statSync (uploads st) name \<noteq> Some Directory"
  by (auto simp: upload_def Let_def dest: authenticateToken_Inl split: sum.splits if_splits)

lemma download_stored:
  assumes "authenticateToken st req = Inr user"
    and "CHR ''/'' \<notin> set name" "name \<noteq> []" "name \<noteq> ''.''" "name \<noteq> ''..''"
    and "CHR 0x00 \<notin> set name"
  shows "download (st\<lparr>uploads := put name (File content) (uploads st)\<rparr>) req name =
     (if hd name = CHR ''.'' then Response 500 (Message ''Error downloading file.'')
      else Response 200 (Attachment name content))"
  using assms
  by (simp add: download_def access_def path_join_plain lookup_entry dotfile_entry
      statSync_def map_of_put final_def no_trailing_slash)

lemma upload_then_download:
  assumes up: "snd (upload st req (Some (filename, content))) = Response 200 (Filename msg name)"
    and auth: "authenticateToken st req' = Inr user'"
    and nul: "CHR 0x00 \<notin> set name"
  shows "download (fst (upload st req (Some (filename, content)))) req' name =
     (if hd name = CHR ''.'' then Response 500 (Message ''Error downloading file.'')
      else Response 200 (Attachment name content))"
proof -
  from upload_success [OF up] obtain user where
    a: "authenticateToken st req = Inr user" and n: "name = basename filename" "name \<noteq> []"
    and nd: "statSync (uploads st) name \<noteq> Some Directory"
    by blast
  from n basename_plain [of filename] have
    plain: "CHR ''/'' \<notin> set name" "name \<noteq> ''.''" "name \<noteq> ''..''"
    by simp_all
  have "upload st req (Some (filename, content)) =
      (st\<lparr>uploads := put name (File content) (uploads st)\<rparr>,
       Response 200 (Filename ''File uploaded successfully!'' name))"
    using a n nd upload_ok [of st req user filename content] by simp
  then show ?thesis
    using download_stored [OF auth plain(1) n(2) plain(2,3) nul] by simp
qed

lemma upload_again:
  assumes up: "snd (upload st req (Some (filename, content))) = Response 200 (Filename msg name)"
  shows "snd (upload (fst (upload st req (Some (filename, content)))) req
            (Some (filename, content'))) =
     Response 200 (Filename ''File uploaded successfully!'' name)"
proof -
  from upload_success [OF up] obtain user where
    a: "authenticateToken st req = Inr user" and n: "name = basename filename" "name \<noteq> []"
    and nd: "statSync (uploads st) name \<noteq> Some Directory"
    by blast
  let ?st1 = "st\<lparr>uploads := put name (File content) (uploads st)\<rparr>"
  have u1: "upload st req (Some (filename, content)) =
      (?st1, Response 200 (Filename ''File uploaded successfully!'' name))"
    using a n nd upload_ok [of st req user filename content] by simp
  have "statSync (uploads ?st1) (basename filename) \<noteq> Some Directory"
    using n by (simp add: statSync_def map_of_put)
  moreover have "authenticateToken ?st1 req = Inr user" using a by simp
  ultimately have "upload ?st1 req (Some (filename, content')) =
      (?st1\<lparr>uploads := put (basename filename) (File content') (uploads ?st1)\<rparr>,
       Response 200 (Filename ''File uploaded successfully!'' (basename filename)))"
    using n by (intro upload_ok) simp_all
  with u1 n show ?thesis by simp
qed

text \<open>
  C7, at a name that begins with a dot. An authenticated client uploads a file named
  \<^verbatim>\<open>.env\<close>: the upload is answered with 200 and reports that name, and the listing
  returns it. The download of \<^verbatim>\<open>.env\<close> with the same token is then answered with 500
  \<^verbatim>\<open>Error downloading file.\<close> and not with the content that was uploaded.
\<close>

theorem dotfile_download_fails:
  "snd (upload (fresh []\<lparr>authenticatedUsers := {''user_2_6_4_8''}\<rparr>)
         (with_header ''user_2_6_4_8'') (Some (''.env'', ''secret''))) =
     Response 200 (Filename ''File uploaded successfully!'' ''.env'') \<and>
   files
     (fst (upload (fresh []\<lparr>authenticatedUsers := {''user_2_6_4_8''}\<rparr>)
         (with_header ''user_2_6_4_8'') (Some (''.env'', ''secret''))))
     (with_header ''user_2_6_4_8'') = Response 200 (Files [''.env'']) \<and>
   download
     (fst (upload (fresh []\<lparr>authenticatedUsers := {''user_2_6_4_8''}\<rparr>)
         (with_header ''user_2_6_4_8'') (Some (''.env'', ''secret''))))
     (with_header ''user_2_6_4_8'') ''.env'' =
     Response 500 (Message ''Error downloading file.'')"
proof -
  let ?st = "fresh []\<lparr>authenticatedUsers := {''user_2_6_4_8''}\<rparr>"
  let ?req = "with_header ''user_2_6_4_8''"
  have a: "authenticateToken ?st ?req = Inr ''user_2_6_4_8''"
    by (simp add: authenticateToken_with_header)
  have b: "basename ''.env'' = ''.env''"
    by (simp add: basename_def)
  have u: "upload ?st ?req (Some (''.env'', ''secret'')) =
      (?st\<lparr>uploads := put ''.env'' (File ''secret'') (uploads ?st)\<rparr>,
       Response 200 (Filename ''File uploaded successfully!'' ''.env''))"
    using upload_ok [OF a, of "''.env''" "''secret''"] by (simp add: b statSync_def fresh_def)
  have e: "uploads ?st = []" by (simp add: fresh_def)
  have l: "files (?st\<lparr>uploads := put ''.env'' (File ''secret'') (uploads ?st)\<rparr>) ?req =
      Response 200 (Files [''.env''])"
    using a by (simp add: files_def e readdir_def statSync_def)
  have d: "download (?st\<lparr>uploads := put ''.env'' (File ''secret'') (uploads ?st)\<rparr>) ?req ''.env'' =
      Response 500 (Message ''Error downloading file.'')"
    using download_stored [OF a, of "''.env''" "''secret''"] by simp
  from l d show ?thesis by (simp add: u)
qed

section \<open>The listing and the two columns\<close>

lemma last_index_from_notin:
  "c \<notin> set xs \<Longrightarrow> last_index_from i c xs found = found"
  by (induction xs arbitrary: i) auto

lemma last_index_from_append:
  "last_index_from i c (xs @ ys) found =
     last_index_from (i + length xs) c ys (last_index_from i c xs found)"
  by (induction xs arbitrary: i found) auto

lemma lastIndexOf_ext:
  "c \<notin> set e \<Longrightarrow> lastIndexOf (base @ c # e) c = int (length base)"
  by (simp add: lastIndexOf_def last_index_from_append last_index_from_notin)

lemma lastIndexOf_none: "c \<notin> set s \<Longrightarrow> lastIndexOf s c = - 1"
  by (simp add: lastIndexOf_def last_index_from_notin)

lemma lower_char_dot [simp]: "lower_char CHR ''.'' = CHR ''.''"
  by (simp add: lower_char_def)

lemma lower_char_eq_dot: "CHR ''.'' = lower_char c \<longleftrightarrow> c = CHR ''.''"
  by (auto simp: lower_char_def split: if_splits)

lemma isImage_ext:
  assumes "CHR ''.'' \<notin> set e"
  shows "isImage (base @ ''.'' @ e) \<longleftrightarrow>
     toLowerCase e \<in> {''jpg'', ''jpeg'', ''png'', ''gif'', ''svg'', ''webp''}"
proof -
  have "substring (base @ ''.'' @ e) (lastIndexOf (base @ ''.'' @ e) CHR ''.'') = ''.'' @ e"
    using assms by (simp add: lastIndexOf_ext substring_def)
  then show ?thesis
    by (simp add: isImage_def toLowerCase_def imageExtensions_def Let_def)
qed

lemma isImage_no_dot:
  assumes "CHR ''.'' \<notin> set f"
  shows "\<not> isImage f"
proof -
  have "substring f (lastIndexOf f CHR ''.'') = f"
    using assms by (simp add: lastIndexOf_none substring_def)
  moreover have "CHR ''.'' \<notin> set (toLowerCase f)"
    using assms by (auto simp: toLowerCase_def lower_char_eq_dot)
  ultimately show ?thesis
    by (auto simp: isImage_def imageExtensions_def Let_def)
qed

lemma files_listing:
  "authenticateToken st req = Inr user \<Longrightarrow>
   files st req =
     Response 200 (Files (filter (\<lambda>name. isFile (statSync (uploads st) name)) (readdir (uploads st))))"
  by (simp add: files_def)

lemma isFile_iff: "isFile x \<longleftrightarrow> (\<exists>content. x = Some (File content))"
  by (cases x rule: isFile.cases) auto

lemma listed_names:
  "set (filter (\<lambda>name. isFile (statSync dir name)) (readdir dir)) =
     {name. \<exists>content. statSync dir name = Some (File content)}"
  by (auto simp: isFile_iff statSync_def readdir_def dest: map_of_SomeD intro: rev_image_eqI)

lemma example_image:
  "filterFiles ''image'' [''a.png'', ''b.txt'', ''c.JPG''] = [''a.png'', ''c.JPG'']"
  by (simp add: filterFiles_def isImage_def lastIndexOf_def substring_def toLowerCase_def
      lower_char_def imageExtensions_def Let_def)

lemma example_other:
  "filterFiles ''other'' [''a.png'', ''b.txt'', ''c.JPG''] = [''b.txt'']"
  by (simp add: filterFiles_def isImage_def lastIndexOf_def substring_def toLowerCase_def
      lower_char_def imageExtensions_def Let_def)

text \<open>
  C8. For an authenticated request the listing returns the names of exactly the regular
  files of the upload directory. The client's filter puts a listed name in the image
  column when its lower-cased extension is one of .jpg .jpeg .png .gif .svg .webp and in
  the other column otherwise, so every name is in exactly one column; a name without a
  dot is never an image. On the names a.png, b.txt, c.JPG the image column is a.png, c.JPG
  and the other column is b.txt.
\<close>

theorem listing_and_partition:
  "(authenticateToken st req = Inr user \<longrightarrow>
      (\<exists>names. files st req = Response 200 (Files names) \<and>
         set names = {name. \<exists>content. statSync (uploads st) name = Some (File content)})) \<and>
   filterFiles ''image'' [''a.png'', ''b.txt'', ''c.JPG''] = [''a.png'', ''c.JPG''] \<and>
   filterFiles ''other'' [''a.png'', ''b.txt'', ''c.JPG''] = [''b.txt''] \<and>
   imageExtensions = [''.jpg'', ''.jpeg'', ''.png'', ''.gif'', ''.svg'', ''.webp''] \<and>
   (CHR ''.'' \<notin> set e \<longrightarrow>
      isImage (base @ ''.'' @ e) =
        (toLowerCase e \<in> {''jpg'', ''jpeg'', ''png'', ''gif'', ''svg'', ''webp''})) \<and>
   (CHR ''.'' \<notin> set f \<longrightarrow> \<not> isImage f) \<and>
   set (filterFiles ''image'' fs) = {file \<in> set fs. isImage file} \<and>
   set (filterFiles ''other'' fs) = {file \<in> set fs. \<not> isImage file}"
proof (intro conjI impI)
  assume "authenticateToken st req = Inr user"
  then show "\<exists>names. files st req = Response 200 (Files names) \<and>
         set names = {name. \<exists>content. statSync (uploads st) name = Some (File content)}"
    by (simp add: files_listing listed_names del: set_filter)
next
  show "filterFiles ''image'' [''a.png'', ''b.txt'', ''c.JPG''] = [''a.png'', ''c.JPG'']"
    by (rule example_image)
  show "filterFiles ''other'' [''a.png'', ''b.txt'', ''c.JPG''] = [''b.txt'']"
    by (rule example_other)
  show "imageExtensions = [''.jpg'', ''.jpeg'', ''.png'', ''.gif'', ''.svg'', ''.webp'']"
    by (rule imageExtensions_def)
  show "set (filterFiles ''image'' fs) = {file \<in> set fs. isImage file}"
    by (simp add: filterFiles_def)
  show "set (filterFiles ''other'' fs) = {file \<in> set fs. \<not> isImage file}"
    by (simp add: filterFiles_def)
next
  assume "CHR ''.'' \<notin> set e"
  then show "isImage (base @ ''.'' @ e) =
        (toLowerCase e \<in> {''jpg'', ''jpeg'', ''png'', ''gif'', ''svg'', ''webp''})"
    by (rule isImage_ext)
next
  assume "CHR ''.'' \<notin> set f"
  then show "\<not> isImage f" by (rule isImage_no_dot)
qed

theorem listing_and_partition_witness:
  "authenticateToken
     (fresh [(''a.png'', File ''1''), (''b.txt'', File ''2''), (''pics.png'', Directory),
             (''c.JPG'', File ''3'')]\<lparr>authenticatedUsers := {''user_2_6_4_8''}\<rparr>)
     (with_header ''user_2_6_4_8'') = Inr ''user_2_6_4_8'' \<and>
   files
     (fresh [(''a.png'', File ''1''), (''b.txt'', File ''2''), (''pics.png'', Directory),
             (''c.JPG'', File ''3'')]\<lparr>authenticatedUsers := {''user_2_6_4_8''}\<rparr>)
     (with_header ''user_2_6_4_8'') = Response 200 (Files [''a.png'', ''b.txt'', ''c.JPG'']) \<and>
   {name. \<exists>content. statSync
        (uploads (fresh [(''a.png'', File ''1''), (''b.txt'', File ''2''), (''pics.png'', Directory),
             (''c.JPG'', File ''3'')]\<lparr>authenticatedUsers := {''user_2_6_4_8''}\<rparr>)) name =
        Some (File content)} = {''a.png'', ''b.txt'', ''c.JPG''} \<and>
   fetchAndFilterFiles
     (fresh [(''a.png'', File ''1''), (''b.txt'', File ''2''), (''pics.png'', Directory),
             (''c.JPG'', File ''3'')]\<lparr>authenticatedUsers := {''user_2_6_4_8''}\<rparr>)
     (Some ''user_2_6_4_8'') ''image'' = Some [''a.png'', ''c.JPG''] \<and>
   fetchAndFilterFiles
     (fresh [(''a.png'', File ''1''), (''b.txt'', File ''2''), (''pics.png'', Directory),
             (''c.JPG'', File ''3'')]\<lparr>authenticatedUsers := {''user_2_6_4_8''}\<rparr>)
     (Some ''user_2_6_4_8'') ''other'' = Some [''b.txt''] \<and>
   CHR ''.'' \<notin> set ''JPG'' \<and> isImage ''c.JPG'' \<and>
   CHR ''.'' \<notin> set ''README'' \<and> \<not> isImage ''README''"
proof -
  let ?st = "fresh [(''a.png'', File ''1''), (''b.txt'', File ''2''), (''pics.png'', Directory),
             (''c.JPG'', File ''3'')]\<lparr>authenticatedUsers := {''user_2_6_4_8''}\<rparr>"
  note r = listing_and_partition
    [where st = ?st and req = "with_header ''user_2_6_4_8''" and user = "''user_2_6_4_8''"
       and e = "''JPG''" and base = "''c''" and f = "''README''"]
  have a: "authenticateToken ?st (with_header ''user_2_6_4_8'') = Inr ''user_2_6_4_8''"
    by (simp add: authenticateToken_with_header)
  have l: "files ?st (with_header ''user_2_6_4_8'') =
      Response 200 (Files [''a.png'', ''b.txt'', ''c.JPG''])"
    unfolding files_listing [OF a] by (simp add: fresh_def readdir_def statSync_def)
  from a r obtain names where
    "files ?st (with_header ''user_2_6_4_8'') = Response 200 (Files names)"
    "set names = {name. \<exists>content. statSync (uploads ?st) name = Some (File content)}"
    by blast
  with l have s: "{name. \<exists>content. statSync (uploads ?st) name = Some (File content)} =
      {''a.png'', ''b.txt'', ''c.JPG''}"
    by auto
  from r have img: "filterFiles ''image'' [''a.png'', ''b.txt'', ''c.JPG''] = [''a.png'', ''c.JPG'']"
    and oth: "filterFiles ''other'' [''a.png'', ''b.txt'', ''c.JPG''] = [''b.txt'']"
    by blast+
  have f1: "fetchAndFilterFiles ?st (Some ''user_2_6_4_8'') ''image'' = Some [''a.png'', ''c.JPG'']"
    by (simp add: fetchAndFilterFiles_def l img)
  have f2: "fetchAndFilterFiles ?st (Some ''user_2_6_4_8'') ''other'' = Some [''b.txt'']"
    by (simp add: fetchAndFilterFiles_def l oth)
  have d1: "CHR ''.'' \<notin> set ''JPG''" and d2: "CHR ''.'' \<notin> set ''README''" by simp_all
  have lo: "toLowerCase ''JPG'' = ''jpg''"
    by (simp add: toLowerCase_def lower_char_def)
  from d1 r lo have i1: "isImage ''c.JPG''" by simp
  from d2 r have i2: "\<not> isImage ''README''" by blast
  from a l s f1 f2 d1 d2 i1 i2 show ?thesis by blast
qed

end
